theory Spec2Isabelle
  imports Complex_Main
begin

section \<open>Deterministic Plinko: a model of main.js\<close>

text \<open>
  The JavaScript numbers of main.js are modelled as reals. The rounding of IEEE doubles is
  written out, with the function \<open>double\<close>, where main.js computes the horizontal geometry
  of the buckets (their width, centres and edges); everywhere else the arithmetic is exact.
  NaN and signed zeros are not modelled. The two infinities the code uses
  (\<^verbatim>\<open>lastHitTime = -Infinity\<close>, \<^verbatim>\<open>minDistance = Infinity\<close>) are the value \<open>None\<close> of an
  option. Calls of \<^verbatim>\<open>Math.random()\<close> read a stream \<open>rnd :: nat \<Rightarrow> real\<close> at a position that
  is part of the state and advances by one per call. Of the drawing code only the
  exception it can throw is modelled; DOM updates, particles and timers are left out.
  Every global variable that the modelled functions read in a branch is a field of the
  record \<open>game\<close>.
\<close>

subsection \<open>Data\<close>

record peg =
  peg_x :: real
  peg_y :: real
  peg_radius :: real
  peg_row :: nat
  peg_col :: nat

record bucket =
  bucket_x :: real
  bucket_y :: real
  bucket_width :: real
  bucket_height :: real
  bucket_number :: nat

record keyframe =
  kf_x :: real
  kf_y :: real
  kf_time :: real

record ballObj =
  ball_x :: real
  ball_y :: real
  ball_radius :: real
  ball_targetBucket :: int

datatype phase = Ready | Dropping | Completed

datatype dropResult = Success | Failure

datatype error = TypeError | IndexSizeError

datatype 'a outcome = Returns 'a | Throws error

record game =
  canvas_width :: real
  canvas_height :: real
  pegSpacing :: real
  pegRadius :: real
  ballRadius :: real
  pegLocations :: "peg list"
  bucketLocations :: "bucket list"
  selectedBucket :: "int option"
  isGameActive :: bool
  gameState :: phase
  lastTimestamp :: real
  ball :: "ballObj option"
  targetBucket :: "int option"
  totalDrops :: nat
  successfulDrops :: nat
  lastResult :: "dropResult option"
  lastBucketLanded :: "int option"
  animationPath :: "keyframe list option"
  animationStartTime :: real
  animationDuration :: real
  landingHandled :: bool
  randomPos :: nat

type_synonym rng = "nat \<Rightarrow> real"

subsection \<open>GAME_CONFIG constants\<close>

definition pegRows :: nat where
  "pegRows = 9"

definition bucketCount :: nat where
  "bucketCount = 5"

definition bucketDepth :: real where
  "bucketDepth = 18 / 100"

definition gravity :: real where
  "gravity = 3 / 10"

definition maxRowPegs :: nat where
  "maxRowPegs = 11"

subsection \<open>Board layout: resizeCanvas, initPegs, initBuckets\<close>

definition js_round :: "real \<Rightarrow> int" where
  "js_round v = \<lfloor>v + 1 / 2\<rfloor>"

definition js_floor :: "real \<Rightarrow> real" where
  "js_floor v = of_int \<lfloor>v\<rfloor>"

definition pegsInRow :: "nat \<Rightarrow> nat" where
  "pegsInRow row =
     (let progressRatio = real row / (real pegRows - 1)
      in nat (max 1 (min (js_round (1 + progressRatio * (real maxRowPegs - 1)))
                         (int maxRowPegs))))"

definition rowPegs :: "game \<Rightarrow> nat \<Rightarrow> peg list" where
  "rowPegs g row =
     (let startX = canvas_width g / 2;
          startY = canvas_height g * (8 / 100);
          horizontalSpacing = canvas_width g / (real maxRowPegs + 1);
          verticalSpacing = horizontalSpacing * (866 / 1000);
          pegsInThisRow = pegsInRow row;
          rowWidth = (real pegsInThisRow - 1) * horizontalSpacing;
          rowStartX = startX - rowWidth / 2
      in map (\<lambda>i. \<lparr> peg_x = rowStartX + real i * horizontalSpacing,
                      peg_y = startY + real row * verticalSpacing,
                      peg_radius = pegRadius g,
                      peg_row = row,
                      peg_col = i \<rparr>) [0..<pegsInThisRow])"

definition initPegs :: "game \<Rightarrow> game" where
  "initPegs g =
     g \<lparr> pegLocations := concat (map (rowPegs g) [0..<pegRows]),
         pegSpacing := canvas_width g / (real maxRowPegs + 1) \<rparr>"

text \<open>
  \<open>double x\<close> is the IEEE 754 binary64 number nearest to \<open>x\<close>, ties to the even
  significand: 53 significant bits, with an unbounded exponent (overflow and subnormal
  numbers do not occur at the sizes of a canvas). \<open>pow2 k\<close> is 2 to the power \<open>k\<close>.
\<close>

definition pow2 :: "int \<Rightarrow> real" where
  "pow2 k = (if 0 \<le> k then 2 ^ nat k else 1 / 2 ^ nat (- k))"

definition roundEven :: "real \<Rightarrow> int" where
  "roundEven v =
     (let f = \<lfloor>v\<rfloor>; d = v - of_int f
      in if d < 1 / 2 then f else if 1 / 2 < d then f + 1 else if even f then f else f + 1)"

definition double :: "real \<Rightarrow> real" where
  "double x =
     (if x = 0 then 0
      else (let e = \<lfloor>log 2 \<bar>x\<bar>\<rfloor> - 52 in of_int (roundEven (x / pow2 e)) * pow2 e))"

text \<open>
  In initBuckets the quotient \<^verbatim>\<open>canvas.width / bucketCount\<close> and the products
  \<^verbatim>\<open>(i + 0.5) * bucketWidth\<close> are rounded; \<^verbatim>\<open>i + 0.5\<close> is exact.
\<close>

definition initBuckets :: "game \<Rightarrow> game" where
  "initBuckets g =
     (let bucketY = canvas_height g * (84 / 100);
          bucketHeight = canvas_height g * bucketDepth;
          bucketWidth = double (canvas_width g / real bucketCount)
      in g \<lparr> bucketLocations :=
               map (\<lambda>i. \<lparr> bucket_x = double ((real i + 1 / 2) * bucketWidth),
                           bucket_y = bucketY,
                           bucket_width = bucketWidth,
                           bucket_height = bucketHeight,
                           bucket_number = i + 1 \<rparr>) [0..<bucketCount] \<rparr>)"

text \<open>
  \<^verbatim>\<open>canvas.width\<close> and \<^verbatim>\<open>canvas.height\<close> are reflected attributes of type unsigned long: the
  assigned number is truncated towards zero and taken modulo 2 to the 32, and a result
  above 2147483647 is replaced by the default of the attribute, 300 for the width and 150
  for the height.
\<close>

definition js_trunc :: "real \<Rightarrow> int" where
  "js_trunc v = (if 0 \<le> v then \<lfloor>v\<rfloor> else \<lceil>v\<rceil>)"

definition canvasAttribute :: "real \<Rightarrow> real \<Rightarrow> real" where
  "canvasAttribute dflt v =
     (let n = js_trunc v mod 4294967296 in if n \<le> 2147483647 then of_int n else dflt)"

text \<open>
  drawGame draws the background, the pegs, the buckets and the ball. Of its canvas calls
  only \<^verbatim>\<open>ctx.arc\<close> can fail: it throws an IndexSizeError for a negative radius. The pegs are
  drawn first, each with \<^verbatim>\<open>peg.radius\<close>; the ball, when there is one, with \<^verbatim>\<open>ball.radius\<close>
  and positive multiples of it. The radii of the particles are positive.
\<close>

definition drawGame :: "game \<Rightarrow> unit outcome" where
  "drawGame g =
     (if list_ex (\<lambda>p. peg_radius p < 0) (pegLocations g) then Throws IndexSizeError
      else (case ball g of
              None \<Rightarrow> Returns ()
            | Some b \<Rightarrow> if ball_radius b < 0 then Throws IndexSizeError else Returns ()))"

text \<open>
  resizeCanvas; the argument is \<^verbatim>\<open>offsetWidth\<close> of the game container, a non-negative
  integer. The radii are computed from the local \<^verbatim>\<open>width\<close>, the pegs and buckets from the
  canvas attributes.
\<close>

definition resizeCanvas :: "nat \<Rightarrow> game \<Rightarrow> unit outcome \<times> game" where
  "resizeCanvas containerWidth g =
     (let maxWidth = 800;
          width = min (real containerWidth - 20) maxWidth;
          height = width * (13 / 10);
          g1 = g \<lparr> canvas_width := canvasAttribute 300 width,
                   canvas_height := canvasAttribute 150 height \<rparr>;
          g2 = g1 \<lparr> pegSpacing := js_floor (width / 16),
                    pegRadius := js_floor (width / 100),
                    ballRadius := js_floor (width / 60) \<rparr>;
          g3 = initBuckets (initPegs g2)
      in if \<not> isGameActive g3 then (drawGame g3, g3) else (Returns (), g3))"

text \<open>The edges of a bucket, \<^verbatim>\<open>bucket.x - bucket.width/2\<close> and \<^verbatim>\<open>bucket.x + bucket.width/2\<close>;
  the halving is exact, the difference and the sum are rounded.\<close>

definition bucketLeft :: "bucket \<Rightarrow> real" where
  "bucketLeft b = double (bucket_x b - bucket_width b / 2)"

definition bucketRight :: "bucket \<Rightarrow> real" where
  "bucketRight b = double (bucket_x b + bucket_width b / 2)"

subsection \<open>generateAnimationPath\<close>

text \<open>
  \<^verbatim>\<open>bucketLocations[n - 1]\<close>: the bucket object, or \<^verbatim>\<open>undefined\<close> (here \<open>None\<close>) when the
  index is out of range.
\<close>

definition lookupBucket :: "bucket list \<Rightarrow> int \<Rightarrow> bucket option" where
  "lookupBucket bs n =
     (if 1 \<le> n \<and> n \<le> int (length bs) then Some (bs ! nat (n - 1)) else None)"

definition atan2 :: "real \<Rightarrow> real \<Rightarrow> real" where
  "atan2 y x =
     (if 0 < x then arctan (y / x)
      else if x < 0 then (if 0 \<le> y then arctan (y / x) + pi else arctan (y / x) - pi)
      else if 0 < y then pi / 2
      else if y < 0 then - (pi / 2)
      else 0)"

text \<open>The local variables of one synthesis attempt, with the two globals it writes.\<close>

record sim =
  currentX :: real
  currentY :: real
  currentVx :: real
  currentVy :: real
  hitCount :: nat
  hitWall :: bool
  lastHitTime :: "real option"
  path :: "keyframe list"
  isValidPath :: bool
  sim_animationDuration :: real
  sim_randomPos :: nat

definition steps :: nat where
  "steps = 150"

definition maxRetries :: nat where
  "maxRetries = 100"

definition minDist :: "real \<Rightarrow> peg \<Rightarrow> real" where
  "minDist br p = peg_radius p + br * 2 + 2"

definition pegDist :: "real \<Rightarrow> real \<Rightarrow> peg \<Rightarrow> real" where
  "pegDist cx cy p =
     (let pDx = cx - peg_x p; pDy = cy - peg_y p in sqrt (pDx * pDx + pDy * pDy))"

text \<open>Step 3 of the simulation loop, for one peg: push out, record the hit, deflect.\<close>

definition deflectPeg :: "rng \<Rightarrow> real \<Rightarrow> real \<Rightarrow> peg \<Rightarrow> sim \<Rightarrow> sim" where
  "deflectPeg rnd br time p s =
     (let pDx = currentX s - peg_x p;
          pDy = currentY s - peg_y p;
          dist = pegDist (currentX s) (currentY s) p
      in if dist < minDist br p then
           (let overlap = minDist br p - dist;
                angle = atan2 pDy pDx;
                k = sim_randomPos s;
                deflectAngle0 = angle + (rnd k - 1 / 2) * 1;
                extreme = (rnd (k + 1) < 2 / 10);
                deflectAngle =
                  (if extreme then deflectAngle0 + (rnd (k + 2) - 1 / 2) * (15 / 10)
                   else deflectAngle0);
                k1 = (if extreme then k + 3 else k + 2);
                deflectStrength = 5 / 10 + rnd k1 * (12 / 10);
                horizontalFactor = 8 / 10 + rnd (k1 + 1) * (8 / 10);
                verticalFactor = 6 / 10 + rnd (k1 + 2) * (8 / 10)
            in s \<lparr> currentX := currentX s + cos angle * overlap * (11 / 10),
                    currentY := currentY s + sin angle * overlap * (11 / 10),
                    lastHitTime := Some time,
                    currentVx := currentVx s + cos deflectAngle * deflectStrength * horizontalFactor,
                    currentVy :=
                      max (8 / 10)
                        (currentVy s + sin deflectAngle * deflectStrength * verticalFactor),
                    sim_randomPos := k1 + 3 \<rparr>)
         else s)"

text \<open>Step 7, for one peg: the push is accumulated, the position is not changed meanwhile.\<close>

definition pushOut :: "real \<Rightarrow> real \<Rightarrow> real \<Rightarrow> peg \<Rightarrow> real \<times> real \<Rightarrow> real \<times> real" where
  "pushOut br cx cy p totalPush =
     (let pDx = cx - peg_x p;
          pDy = cy - peg_y p;
          dist = pegDist cx cy p
      in if dist < minDist br p then
           (let overlap = minDist br p - dist;
                angle = atan2 pDy pDx
            in (fst totalPush + cos angle * overlap * (105 / 100),
                snd totalPush + sin angle * overlap * (105 / 100)))
         else totalPush)"

text \<open>Step 8: the pegs that overlap the position reached in this step.\<close>

definition countHits :: "real \<Rightarrow> peg list \<Rightarrow> real \<Rightarrow> real \<Rightarrow> nat" where
  "countHits br pegs cx cy = length (filter (\<lambda>p. pegDist cx cy p < minDist br p) pegs)"

text \<open>Step 6: the side walls and the ceiling at the start height.\<close>

definition walls :: "game \<Rightarrow> real \<Rightarrow> sim \<Rightarrow> sim" where
  "walls g startY s =
     (let br = ballRadius g;
          s1 = (if currentX s - br < 0
                then s \<lparr> currentX := br, currentVx := currentVx s * (- (6 / 10)) \<rparr>
                else if currentX s + br > canvas_width g
                then s \<lparr> currentX := canvas_width g - br,
                         currentVx := currentVx s * (- (6 / 10)) \<rparr>
                else s)
      in if currentY s1 < startY then s1 \<lparr> currentY := startY \<rparr> else s1)"

text \<open>
  The branch taken when the simulated y reaches the top of the target bucket. The path
  holds at least the start keyframe whenever this runs, so \<open>last\<close> is read in range.
\<close>

definition landing :: "bucket \<Rightarrow> real \<Rightarrow> sim \<Rightarrow> sim" where
  "landing tb time s =
     (let prevPoint = last (path s);
          targetY = bucket_y tb;
          dyTotal = currentY s - kf_y prevPoint;
          dyNeeded = targetY - kf_y prevPoint;
          t = (if dyTotal = 0 then 1 else max 0 (min 1 (dyNeeded / dyTotal)));
          finalX = kf_x prevPoint + (currentX s - kf_x prevPoint) * t;
          finalTime = kf_time prevPoint + (time - kf_time prevPoint) * t;
          safetyMargin = bucket_width tb * (1 / 10);
          safeLeft = bucketLeft tb + safetyMargin;
          safeRight = bucketRight tb - safetyMargin;
          valid =
            (if finalX < safeLeft \<or> finalX > safeRight then False
             else (let finalVelocityX = currentX s - kf_x prevPoint;
                       maxSafeVelocity = 2
                   in if \<bar>finalVelocityX\<bar> > maxSafeVelocity then False
                      else isValidPath s))
      in s \<lparr> isValidPath := valid,
              path := path s @ [\<lparr> kf_x = finalX, kf_y = targetY, kf_time = finalTime \<rparr>],
              sim_animationDuration := finalTime \<rparr>)"

text \<open>
  Steps 1 and 2 of an iteration: gravity, and the horizontal pull, whose strength starts
  from 0.0 and is only ever multiplied.
\<close>

definition applyForces :: "bucket \<Rightarrow> real \<Rightarrow> real \<Rightarrow> sim \<Rightarrow> sim" where
  "applyForces tb timeStep time s =
     (let s1 = s \<lparr> currentVy := currentVy s + gravity * (timeStep / 16) \<rparr>;
          dxToTarget = bucket_x tb - currentX s1;
          pullStrength0 = 0;
          pullStrength1 =
            (case lastHitTime s1 of
               None \<Rightarrow> pullStrength0
             | Some hit \<Rightarrow> if time - hit < 180 then pullStrength0 * (1 / 10) else pullStrength0);
          pullStrength =
            (case lastHitTime s1 of
               None \<Rightarrow> pullStrength1
             | Some hit \<Rightarrow> if time > hit then pullStrength1 * (2 / 10) else pullStrength1)
      in s1 \<lparr> currentVx := currentVx s1 + dxToTarget * pullStrength * (timeStep / 16) \<rparr>)"

text \<open>Steps 4 and 5: damping, the clamp of the vertical velocity, the new position.\<close>

definition dampAndMove :: "real \<Rightarrow> sim \<Rightarrow> sim" where
  "dampAndMove timeStep s =
     (let s4 = s \<lparr> currentVx := currentVx s * (985 / 1000),
                   currentVy := min (currentVy s * (99 / 100)) 15 \<rparr>
      in s4 \<lparr> currentX := currentX s4 + currentVx s4 * (timeStep / 16),
              currentY := currentY s4 + currentVy s4 * (timeStep / 16) \<rparr>)"

text \<open>Steps 1 to 6: the state when the iteration asks whether the target y is reached.\<close>

definition physicsStep :: "rng \<Rightarrow> game \<Rightarrow> real \<Rightarrow> bucket \<Rightarrow> real \<Rightarrow> real \<Rightarrow> sim \<Rightarrow> sim" where
  "physicsStep rnd g startY tb timeStep time s =
     walls g startY
       (dampAndMove timeStep
          (fold (deflectPeg rnd (ballRadius g) time) (pegLocations g)
             (applyForces tb timeStep time s)))"

text \<open>Steps 7 to 9: the push out of the pegs, the hit count and wall flag, the keyframe.\<close>

definition recordStep :: "game \<Rightarrow> bucket \<Rightarrow> real \<Rightarrow> real \<Rightarrow> nat \<Rightarrow> sim \<Rightarrow> sim" where
  "recordStep g tb totalDurationMs time i s6 =
     (let br = ballRadius g;
          totalPush = fold (pushOut br (currentX s6) (currentY s6)) (pegLocations g) (0, 0);
          s7 = s6 \<lparr> currentX := currentX s6 + fst totalPush,
                    currentY := currentY s6 + snd totalPush \<rparr>;
          s8 = s7 \<lparr> hitCount := countHits br (pegLocations g) (currentX s7) (currentY s7),
                    hitWall := (if currentX s7 \<le> br \<or> currentX s7 \<ge> canvas_width g - br
                                then True else hitWall s7) \<rparr>
      in if i < steps
         then s8 \<lparr> path := path s8 @ [\<lparr> kf_x = currentX s8, kf_y = currentY s8,
                                         kf_time = time \<rparr>] \<rparr>
         else (if kf_y (last (path s8)) < bucket_y tb
               then s8 \<lparr> path := path s8 @ [\<lparr> kf_x = bucket_x tb, kf_y = bucket_y tb,
                                               kf_time = totalDurationMs \<rparr>] \<rparr>
               else s8) \<lparr> sim_animationDuration := totalDurationMs \<rparr>)"

text \<open>One iteration of the simulation loop; the flag says that the loop was left by \<^verbatim>\<open>break\<close>.\<close>

definition simStep :: "rng \<Rightarrow> game \<Rightarrow> real \<Rightarrow> bucket \<Rightarrow> real \<Rightarrow> nat \<Rightarrow> sim \<Rightarrow> sim \<times> bool" where
  "simStep rnd g startY tb totalDurationMs i s =
     (let timeStep = totalDurationMs / real steps;
          time = real i * timeStep;
          s6 = physicsStep rnd g startY tb timeStep time s
      in if currentY s6 \<ge> bucket_y tb then (landing tb time s6, True)
         else (recordStep g tb totalDurationMs time i s6, False))"

text \<open>
  \<^verbatim>\<open>for (let i = 1; i <= steps; i++)\<close>: the first argument counts the iterations that are
  left, the second is \<open>i\<close>.
\<close>

fun simLoop :: "rng \<Rightarrow> game \<Rightarrow> real \<Rightarrow> bucket \<Rightarrow> real \<Rightarrow> nat \<Rightarrow> nat \<Rightarrow> sim \<Rightarrow> sim" where
  "simLoop rnd g startY tb totalDurationMs 0 i s = s"
| "simLoop rnd g startY tb totalDurationMs (Suc n) i s =
     (case simStep rnd g startY tb totalDurationMs i s of
        (s', stop) \<Rightarrow> if stop then s' else simLoop rnd g startY tb totalDurationMs n (Suc i) s')"

text \<open>The start of an attempt: reset of the locals and choice of the initial velocity.\<close>

definition edgeFactorOf :: "int \<Rightarrow> real" where
  "edgeFactorOf targetBucketIndex =
     (if targetBucketIndex = 1 \<or> targetBucketIndex = int bucketCount then 1
      else if targetBucketIndex = 2 \<or> targetBucketIndex = int bucketCount - 1 then 7 / 10
      else 4 / 10)"

definition startAttempt :: "rng \<Rightarrow> real \<Rightarrow> real \<Rightarrow> int \<Rightarrow> bucket \<Rightarrow> nat \<Rightarrow> sim \<Rightarrow> sim" where
  "startAttempt rnd startX startY targetBucketIndex tb retries s =
     (let distanceToTarget = bucket_x tb - startX;
          edgeFactor = edgeFactorOf targetBucketIndex;
          baseVelocity = sgn distanceToTarget * min (\<bar>distanceToTarget\<bar> / 100) (15 / 10)
                           * edgeFactor;
          attemptVariation = real (retries mod 3) * (5 / 10);
          randomFactor = (1 - \<bar>edgeFactor - 5 / 10\<bar>) * (15 / 10) + attemptVariation;
          k = sim_randomPos s;
          trick = (rnd k < 3 / 10);
          vx0 = (if trick
                 then baseVelocity * (1 + rnd (k + 1)) + (rnd (k + 2) - 1 / 2) * (25 / 10)
                 else baseVelocity + (rnd (k + 1) - 1 / 2) * randomFactor);
          k1 = (if trick then k + 3 else k + 2);
          nudgeLeft = (targetBucketIndex = 1 \<and> vx0 > - (2 / 10));
          nudgeRight = (\<not> nudgeLeft \<and> targetBucketIndex = int bucketCount \<and> vx0 < 2 / 10);
          vx = (if nudgeLeft then vx0 - (5 / 10 + rnd k1 * (5 / 10))
                else if nudgeRight then vx0 + (5 / 10 + rnd k1 * (5 / 10))
                else vx0);
          k2 = (if nudgeLeft \<or> nudgeRight then k1 + 1 else k1);
          verticalVariation = (if rnd k2 < 3 / 10 then 8 / 10 else 4 / 10);
          baseVertical = 8 / 10 + edgeFactor * (4 / 10);
          vy0 = baseVertical + rnd (k2 + 1) * verticalVariation;
          highBounce = (rnd (k2 + 2) < 15 / 100);
          vy = (if highBounce then baseVertical + 5 / 10 + rnd (k2 + 3) * (8 / 10) else vy0);
          k3 = (if highBounce then k2 + 4 else k2 + 3)
      in s \<lparr> path := [\<lparr> kf_x = startX, kf_y = startY, kf_time = 0 \<rparr>],
              currentX := startX,
              currentY := startY,
              currentVx := vx,
              currentVy := vy,
              hitCount := 0,
              hitWall := False,
              lastHitTime := None,
              sim_randomPos := k3 \<rparr>)"

text \<open>The validation after the simulation loop. It starts from \<^verbatim>\<open>isValidPath = true\<close>.\<close>

definition validatePath :: "game \<Rightarrow> int \<Rightarrow> bucket \<Rightarrow> sim \<Rightarrow> bool" where
  "validatePath g targetBucketIndex tb s =
     (let isValid0 = True;
          minFinalCheckPoints = 3;
          isEdgeBucket = (targetBucketIndex = 1 \<or> targetBucketIndex = int bucketCount);
          minHitsForEdge = 4;
          isValid1 = (if isEdgeBucket \<and> hitWall s \<and> hitCount s < minHitsForEdge
                      then False else isValid0)
      in if isValid1 \<and> length (path s) \<ge> minFinalCheckPoints then
           (let lastPoint = path s ! (length (path s) - 1);
                secondLastPoint = path s ! (length (path s) - 2);
                finalVx = kf_x lastPoint - kf_x secondLastPoint;
                neededDx = bucket_x tb - kf_x secondLastPoint;
                bucketWidth = canvas_width g / real bucketCount;
                offTargetThreshold = bucketWidth * (3 / 10)
            in if \<bar>neededDx\<bar> > offTargetThreshold \<and> sgn finalVx \<noteq> 0
                  \<and> sgn finalVx \<noteq> sgn neededDx
               then False else isValid1)
         else isValid1)"

text \<open>The body of the \<^verbatim>\<open>do ... while\<close> loop up to the validation.\<close>

definition attempt ::
  "rng \<Rightarrow> game \<Rightarrow> real \<Rightarrow> real \<Rightarrow> int \<Rightarrow> bucket \<Rightarrow> real \<Rightarrow> nat \<Rightarrow> sim \<Rightarrow> sim" where
  "attempt rnd g startX startY targetBucketIndex tb totalDurationMs retries s =
     (let s0 = startAttempt rnd startX startY targetBucketIndex tb retries s;
          s1 = simLoop rnd g startY tb totalDurationMs steps 1 s0
      in s1 \<lparr> isValidPath := validatePath g targetBucketIndex tb s1 \<rparr>)"

text \<open>The handling of a rejected attempt: one more random draw for a velocity that the next
  attempt overwrites.\<close>

definition rejectAttempt :: "rng \<Rightarrow> int \<Rightarrow> sim \<Rightarrow> sim" where
  "rejectAttempt rnd targetBucketIndex s =
     (let vx = (rnd (sim_randomPos s) - 1 / 2) * (25 / 10);
          vx' = (if targetBucketIndex \<le> 2 then vx + 5 / 10
                 else if targetBucketIndex \<ge> 4 then vx - 5 / 10
                 else vx)
      in s \<lparr> currentVx := vx', sim_randomPos := sim_randomPos s + 1 \<rparr>)"

text \<open>\<^verbatim>\<open>do { ... } while (!isValidPath && retries < maxRetries)\<close>; the result is the state of
  the locals when the loop is left, with the number of retries.\<close>

function retryLoop ::
  "rng \<Rightarrow> game \<Rightarrow> real \<Rightarrow> real \<Rightarrow> int \<Rightarrow> bucket \<Rightarrow> real \<Rightarrow> nat \<Rightarrow> sim \<Rightarrow> sim \<times> nat" where
  "retryLoop rnd g startX startY targetBucketIndex tb totalDurationMs retries s =
     (let s1 = attempt rnd g startX startY targetBucketIndex tb totalDurationMs retries s
      in if isValidPath s1 then (s1, retries)
         else (let s2 = rejectAttempt rnd targetBucketIndex s1
               in if Suc retries < maxRetries
                  then retryLoop rnd g startX startY targetBucketIndex tb totalDurationMs
                         (Suc retries) s2
                  else (s2, Suc retries)))"
  by pat_completeness auto
termination
  by (relation "measure (\<lambda>(rnd, g, startX, startY, targetBucketIndex, tb, totalDurationMs,
                           retries, s). maxRetries - retries)") auto

text \<open>
  The function. For an index without a bucket it returns the two-point path of its first
  lines. When the loop is left without a valid path, the next statements are
  \<^verbatim>\<open>path = []; retries = 0; maxRetries = 50;\<close> and \<^verbatim>\<open>maxRetries\<close> is declared \<^verbatim>\<open>const\<close>: the
  assignment throws a TypeError, and nothing after it runs.
\<close>

definition generateAnimationPath ::
  "rng \<Rightarrow> real \<Rightarrow> real \<Rightarrow> int \<Rightarrow> game \<Rightarrow> keyframe list outcome \<times> game" where
  "generateAnimationPath rnd startX startY targetBucketIndex g =
     (case lookupBucket (bucketLocations g) targetBucketIndex of
        None \<Rightarrow>
          (Returns [\<lparr> kf_x = startX, kf_y = startY, kf_time = 0 \<rparr>,
                    \<lparr> kf_x = startX, kf_y = canvas_height g + 50, kf_time = 1000 \<rparr>], g)
      | Some tb \<Rightarrow>
          (let totalDurationMs = 2500 + rnd (randomPos g) * 1000;
               s = \<lparr> currentX = 0, currentY = 0, currentVx = 0, currentVy = 0,
                     hitCount = 0, hitWall = False, lastHitTime = None, path = [],
                     isValidPath = False,
                     sim_animationDuration = animationDuration g,
                     sim_randomPos = randomPos g + 1 \<rparr>;
               s' = fst (retryLoop rnd g startX startY targetBucketIndex tb totalDurationMs 0 s);
               g' = g \<lparr> animationDuration := sim_animationDuration s',
                        randomPos := sim_randomPos s' \<rparr>
           in if \<not> isValidPath s' then (Throws TypeError, g')
              else (Returns (path s'), g')))"


text \<open>The state in which the script starts, before \<^verbatim>\<open>initGame\<close> lays the board out.\<close>

definition initialGame :: game where
  "initialGame =
     \<lparr> canvas_width = 0, canvas_height = 0,
       pegSpacing = 50, pegRadius = 8, ballRadius = 10,
       pegLocations = [], bucketLocations = [],
       selectedBucket = None, isGameActive = False, gameState = Ready,
       lastTimestamp = 0, ball = None, targetBucket = None,
       totalDrops = 0, successfulDrops = 0, lastResult = None, lastBucketLanded = None,
       animationPath = None, animationStartTime = 0, animationDuration = 0,
       landingHandled = False, randomPos = 0 \<rparr>"

subsection \<open>Playback: updateBallAnimation and handleBallLanding\<close>

definition handleBallLanding :: "int option \<Rightarrow> bool \<Rightarrow> game \<Rightarrow> game" where
  "handleBallLanding bucketNumber isTargetBucket g =
     (if landingHandled g then g
      else (let g1 = g \<lparr> landingHandled := True, lastBucketLanded := bucketNumber \<rparr>;
                g2 = (if isTargetBucket
                      then g1 \<lparr> successfulDrops := successfulDrops g1 + 1,
                                lastResult := Some Success \<rparr>
                      else g1 \<lparr> lastResult := Some Failure \<rparr>)
            in g2 \<lparr> gameState := Completed \<rparr>))"

text \<open>
  The first pass of the landing classifier: the loop over the buckets, with the running
  values of \<^verbatim>\<open>actualBucket\<close> (\<open>None\<close> is \<^verbatim>\<open>null\<close>) and \<^verbatim>\<open>minDistance\<close> (\<open>None\<close> is
  \<^verbatim>\<open>Infinity\<close>); the second argument is the rest of the list, the third the loop index.
\<close>

fun firstPass :: "real \<Rightarrow> bucket list \<Rightarrow> nat \<Rightarrow> int option \<Rightarrow> real option \<Rightarrow> int option" where
  "firstPass fx [] i actualBucket minDistance = actualBucket"
| "firstPass fx (b # bs) i actualBucket minDistance =
     (if fx \<ge> bucketLeft b \<and> fx \<le> bucketRight b then Some (int i + 1)
      else (let distance = \<bar>fx - bucket_x b\<bar>
            in if (case minDistance of None \<Rightarrow> True | Some m \<Rightarrow> distance < m)
               then firstPass fx bs (Suc i)
                      (if actualBucket = None then Some (int i + 1) else actualBucket)
                      (Some distance)
               else firstPass fx bs (Suc i) actualBucket minDistance))"

definition lookupTarget :: "game \<Rightarrow> bucket option" where
  "lookupTarget g =
     (case targetBucket g of None \<Rightarrow> None | Some t \<Rightarrow> lookupBucket (bucketLocations g) t)"

definition classifyLanding :: "game \<Rightarrow> keyframe \<Rightarrow> int option outcome" where
  "classifyLanding g finalPoint =
     (let actualBucket = firstPass (kf_x finalPoint) (bucketLocations g) 0 None None
      in if actualBucket \<noteq> targetBucket g then
           (case lookupTarget g of
              None \<Rightarrow> Throws TypeError
            | Some targetBucketObj \<Rightarrow>
                (let distanceToTarget = \<bar>kf_x finalPoint - bucket_x targetBucketObj\<bar>;
                     bucketWidth = bucket_width targetBucketObj
                 in if distanceToTarget < bucketWidth * (4 / 10)
                    then Returns (targetBucket g)
                    else Returns actualBucket))
         else Returns actualBucket)"

definition finishAnimation :: "game \<Rightarrow> unit outcome \<times> game" where
  "finishAnimation g = (Returns (), g \<lparr> isGameActive := False, gameState := Completed \<rparr>)"

text \<open>The branch \<^verbatim>\<open>elapsedTime >= animationDuration\<close>.\<close>

definition completeAnimation :: "ballObj \<Rightarrow> keyframe list \<Rightarrow> game \<Rightarrow> unit outcome \<times> game" where
  "completeAnimation b p g =
     (case p of
        [] \<Rightarrow> (Throws TypeError, g)
      | _ # _ \<Rightarrow>
          (let finalPoint = last p;
               g1 = g \<lparr> ball := Some (b \<lparr> ball_x := kf_x finalPoint,
                                          ball_y := kf_y finalPoint \<rparr>) \<rparr>
           in if \<not> landingHandled g1 then
                (case classifyLanding g1 finalPoint of
                   Throws e \<Rightarrow> (Throws e, g1)
                 | Returns actualBucket \<Rightarrow>
                     (let landedInTarget = (actualBucket = targetBucket g1)
                      in finishAnimation (handleBallLanding actualBucket landedInTarget g1)))
              else finishAnimation g1))"

text \<open>
  The search for the current segment: the loop over \<open>i\<close>, on the rest of the path from
  \<open>i\<close> on; the last argument holds \<^verbatim>\<open>segmentStart\<close> and \<^verbatim>\<open>segmentEnd\<close>.
\<close>

fun findSegment :: "real \<Rightarrow> keyframe list \<Rightarrow> keyframe \<times> keyframe \<Rightarrow> keyframe \<times> keyframe" where
  "findSegment elapsedTime (a # b # rest) seg =
     (if elapsedTime \<ge> kf_time a \<and> elapsedTime < kf_time b then (a, b)
      else if rest = [] \<and> elapsedTime \<ge> kf_time b then (b, b)
      else findSegment elapsedTime (b # rest) seg)"
| "findSegment elapsedTime [a] seg = seg"
| "findSegment elapsedTime [] seg = seg"

definition interpolate :: "real \<Rightarrow> keyframe \<times> keyframe \<Rightarrow> real \<times> real" where
  "interpolate elapsedTime seg =
     (let segmentStart = fst seg;
          segmentEnd = snd seg;
          segmentDuration = kf_time segmentEnd - kf_time segmentStart;
          timeIntoSegment = elapsedTime - kf_time segmentStart;
          t0 = (if segmentDuration > 0 then timeIntoSegment / segmentDuration
                else if elapsedTime \<ge> kf_time segmentStart then 1
                else 0);
          t = max 0 (min 1 t0)
      in (kf_x segmentStart + (kf_x segmentEnd - kf_x segmentStart) * t,
          kf_y segmentStart + (kf_y segmentEnd - kf_y segmentStart) * t))"

text \<open>
  The branch \<^verbatim>\<open>elapsedTime < animationDuration\<close>. With fewer than two keyframes
  \<^verbatim>\<open>animationPath[1]\<close> is \<^verbatim>\<open>undefined\<close> and reading \<^verbatim>\<open>segmentEnd.time\<close> throws.
\<close>

definition advanceAnimation ::
  "real \<Rightarrow> ballObj \<Rightarrow> keyframe list \<Rightarrow> game \<Rightarrow> unit outcome \<times> game" where
  "advanceAnimation elapsedTime b p g =
     (case p of
        a # a' # rest \<Rightarrow>
          (let new = interpolate elapsedTime (findSegment elapsedTime p (a, a'))
           in (Returns (), g \<lparr> ball := Some (b \<lparr> ball_x := fst new, ball_y := snd new \<rparr>) \<rparr>))
      | _ \<Rightarrow> (Throws TypeError, g))"

definition updateBallAnimation :: "real \<Rightarrow> game \<Rightarrow> unit outcome \<times> game" where
  "updateBallAnimation currentTime g =
     (case ball g of
        None \<Rightarrow> (Returns (), g)
      | Some b \<Rightarrow>
          (case animationPath g of
             None \<Rightarrow> (Returns (), g)
           | Some p \<Rightarrow>
               if \<not> isGameActive g then (Returns (), g)
               else (let elapsedTime = currentTime - animationStartTime g
                     in if elapsedTime \<ge> animationDuration g then completeAnimation b p g
                        else advanceAnimation elapsedTime b p g)))"

subsection \<open>Starting and resetting a drop\<close>

definition calculateInitialBallPosition :: "rng \<Rightarrow> game \<Rightarrow> real \<times> game" where
  "calculateInitialBallPosition rnd g =
     (let safetyMargin = ballRadius g * 3;
          minX = safetyMargin;
          maxX = canvas_width g - safetyMargin;
          k = randomPos g;
          xPos0 = minX + rnd k * (maxX - minX)
      in if rnd (k + 1) < 3 / 10 then
           (if rnd (k + 2) < 5 / 10
            then (minX + rnd (k + 3) * (canvas_width g * (25 / 100)), g \<lparr> randomPos := k + 4 \<rparr>)
            else (canvas_width g * (75 / 100)
                    + rnd (k + 3) * (maxX - canvas_width g * (75 / 100)),
                  g \<lparr> randomPos := k + 4 \<rparr>))
         else (xPos0, g \<lparr> randomPos := k + 2 \<rparr>))"

text \<open>The bucket whose closed span holds \<open>finalX\<close>, first match, as handleDropBall finds it.\<close>

fun landedBucketOf :: "real \<Rightarrow> bucket list \<Rightarrow> nat \<Rightarrow> int option" where
  "landedBucketOf finalX [] i = None"
| "landedBucketOf finalX (b # bs) i =
     (if finalX \<ge> bucketLeft b \<and> finalX \<le> bucketRight b then Some (int i + 1)
      else landedBucketOf finalX bs (Suc i))"

text \<open>
  \<^verbatim>\<open>while (!validPathFound && attempts < maxAttempts)\<close> of handleDropBall; the third
  argument counts the attempts that are left. The result is the verified start and path,
  or \<open>None\<close> when no attempt landed in the selected bucket.
\<close>

fun searchPath ::
  "rng \<Rightarrow> int \<Rightarrow> nat \<Rightarrow> game \<Rightarrow> (real \<times> keyframe list) option outcome \<times> game" where
  "searchPath rnd sel 0 g = (Returns None, g)"
| "searchPath rnd sel (Suc n) g =
     (case calculateInitialBallPosition rnd g of
        (testStartX, g1) \<Rightarrow>
          (let testStartY = canvas_height g1 * (5 / 100)
           in case generateAnimationPath rnd testStartX testStartY sel g1 of
                (Throws e, g2) \<Rightarrow> (Throws e, g2)
              | (Returns testPath, g2) \<Rightarrow>
                  if length testPath > 1
                     \<and> landedBucketOf (kf_x (last testPath)) (bucketLocations g2) 0 = Some sel
                  then (Returns (Some (testStartX, testPath)), g2)
                  else searchPath rnd sel n g2))"

text \<open>The direct path of handleDropBall: 51 points of a quadratic curve.\<close>

definition directPoint :: "rng \<Rightarrow> bucket \<Rightarrow> game \<Rightarrow> real \<Rightarrow> nat \<Rightarrow> keyframe" where
  "directPoint rnd tb g verifiedStartX i =
     (let pathDuration = 2500;
          t = real i / 50;
          timePoint = t * pathDuration;
          startX = verifiedStartX;
          startY = canvas_height g * (5 / 100);
          endX = bucket_x tb + (rnd (randomPos g + 1 + i) - 1 / 2) * 10;
          endY = bucket_y tb;
          controlX = (startX + endX) / 2;
          controlY = min startY endY - canvas_height g * (2 / 10);
          xt = (1 - t)\<^sup>2 * startX + 2 * (1 - t) * t * controlX + t\<^sup>2 * endX;
          yt = (1 - t)\<^sup>2 * startY + 2 * (1 - t) * t * controlY + t\<^sup>2 * endY
      in \<lparr> kf_x = xt, kf_y = yt, kf_time = timePoint \<rparr>)"

definition directPath :: "rng \<Rightarrow> bucket \<Rightarrow> game \<Rightarrow> (real \<times> keyframe list) \<times> game" where
  "directPath rnd tb g =
     (let verifiedStartX = bucket_x tb + (rnd (randomPos g) - 1 / 2) * 20
      in ((verifiedStartX, map (directPoint rnd tb g verifiedStartX) [0..<51]),
          g \<lparr> randomPos := randomPos g + 52 \<rparr>))"

text \<open>The last part of handleDropBall: the new ball and the animation state.\<close>

definition startDrop :: "real \<Rightarrow> int \<Rightarrow> real \<Rightarrow> keyframe list \<Rightarrow> game \<Rightarrow> game" where
  "startDrop now sel verifiedStartX verifiedPath g =
     g \<lparr> targetBucket := Some sel,
         landingHandled := False,
         lastBucketLanded := None,
         gameState := Dropping,
         totalDrops := totalDrops g + 1,
         ball := Some \<lparr> ball_x = verifiedStartX, ball_y = canvas_height g * (5 / 100),
                        ball_radius = ballRadius g, ball_targetBucket = sel \<rparr>,
         animationPath := Some verifiedPath,
         animationStartTime := now,
         animationDuration := kf_time (last verifiedPath),
         isGameActive := True \<rparr>"

definition handleDropBall :: "rng \<Rightarrow> real \<Rightarrow> game \<Rightarrow> unit outcome \<times> game" where
  "handleDropBall rnd now g =
     (case selectedBucket g of
        None \<Rightarrow> (Returns (), g)
      | Some sel \<Rightarrow>
          if isGameActive g then (Returns (), g)
          else
            (case searchPath rnd sel 100 (g \<lparr> isGameActive := True, lastTimestamp := 0 \<rparr>) of
               (Throws e, g2) \<Rightarrow> (Throws e, g2)
             | (Returns (Some (verifiedStartX, verifiedPath)), g2) \<Rightarrow>
                 (Returns (), startDrop now sel verifiedStartX verifiedPath g2)
             | (Returns None, g2) \<Rightarrow>
                 (case lookupBucket (bucketLocations g2) sel of
                    None \<Rightarrow> (Throws TypeError, g2)
                  | Some tb \<Rightarrow>
                      (case directPath rnd tb g2 of
                         ((verifiedStartX, verifiedPath), g3) \<Rightarrow>
                           (Returns (), startDrop now sel verifiedStartX verifiedPath g3)))))"

text \<open>
  createBall, which no other function of main.js calls. An index without a bucket
  (\<^verbatim>\<open>null\<close> included) is replaced by \<^verbatim>\<open>Math.ceil(bucketCount / 2)\<close>.
\<close>

definition createBall :: "rng \<Rightarrow> real \<Rightarrow> game \<Rightarrow> unit outcome \<times> game" where
  "createBall rnd now g =
     (let g1 = g \<lparr> landingHandled := False,
                   lastBucketLanded := None,
                   gameState := Dropping,
                   totalDrops := totalDrops g + 1,
                   targetBucket := selectedBucket g \<rparr>
      in case calculateInitialBallPosition rnd g1 of
           (initialX, g2) \<Rightarrow>
             (let g3 = (if lookupTarget g2 = None
                        then g2 \<lparr> targetBucket := Some \<lceil>real bucketCount / 2\<rceil> \<rparr>
                        else g2)
              in case (targetBucket g3, lookupTarget g3) of
                   (Some t, Some target) \<Rightarrow>
                     (let g4 = g3 \<lparr> ball := Some \<lparr> ball_x = initialX,
                                                   ball_y = canvas_height g3 * (5 / 100),
                                                   ball_radius = ballRadius g3,
                                                   ball_targetBucket = t \<rparr>,
                                     randomPos := randomPos g3 + 1 \<rparr>;
                          startY = canvas_height g4 * (5 / 100)
                      in case generateAnimationPath rnd initialX startY t g4 of
                           (Throws e, g5) \<Rightarrow> (Throws e, g5)
                         | (Returns p, g5) \<Rightarrow>
                             (Returns (), g5 \<lparr> animationPath := Some p,
                                               animationStartTime := now \<rparr>))
                 | _ \<Rightarrow> (Throws TypeError, g3)))"

definition resetBall :: "game \<Rightarrow> game" where
  "resetBall g =
     g \<lparr> ball := None,
         targetBucket := None,
         animationPath := None,
         animationStartTime := 0,
         animationDuration := 0,
         landingHandled := False,
         isGameActive := False,
         gameState := Ready \<rparr>"

definition handleReset :: "game \<Rightarrow> game" where
  "handleReset g = (if isGameActive g \<or> ball g \<noteq> None then resetBall g else g)"

definition handleBucketSelection :: "int \<Rightarrow> game \<Rightarrow> game" where
  "handleBucketSelection n g = (if isGameActive g then g else g \<lparr> selectedBucket := Some n \<rparr>)"

definition gameLoop :: "real \<Rightarrow> game \<Rightarrow> unit outcome \<times> game" where
  "gameLoop timestamp g =
     (let g1 = g \<lparr> lastTimestamp := timestamp \<rparr>
      in case (if isGameActive g1 then updateBallAnimation timestamp g1 else (Returns (), g1)) of
           (Throws e, g2) \<Rightarrow> (Throws e, g2)
         | (Returns u, g2) \<Rightarrow> (drawGame g2, g2))"

text \<open>The timer that updateBallAnimation sets at the end of the playback.\<close>

definition cleanupTimeout :: "game \<Rightarrow> game" where
  "cleanupTimeout g =
     (if ball g \<noteq> None \<and> gameState g = Completed then g \<lparr> ball := None \<rparr> else g)"

text \<open>
  initGame starts with resizeCanvas; when that throws, the script ends there, before it
  has installed an event listener, in the state that resizeCanvas has reached.
\<close>

definition initGame :: "nat \<Rightarrow> game" where
  "initGame containerWidth = snd (resizeCanvas containerWidth initialGame)"

subsection \<open>The events of the page\<close>

text \<open>
  Each event runs one handler to its end; a handler that throws leaves the state as it was
  at the throw. Other code of the page also calls \<^verbatim>\<open>Math.random()\<close>, so each event may see
  any stream. The events are allowed in every state, also after an exception that in the
  browser ends the animation loop or the installation of the listeners.
\<close>

datatype event =
    SelectBucket int
  | DropClick real
  | ResetClick
  | Frame real
  | Resize nat
  | CleanupTimer

fun fire :: "rng \<Rightarrow> event \<Rightarrow> game \<Rightarrow> game" where
  "fire rnd (SelectBucket n) g = handleBucketSelection n g"
| "fire rnd (DropClick now) g = snd (handleDropBall rnd now g)"
| "fire rnd ResetClick g = handleReset g"
| "fire rnd (Frame timestamp) g = snd (gameLoop timestamp g)"
| "fire rnd (Resize containerWidth) g = snd (resizeCanvas containerWidth g)"
| "fire rnd CleanupTimer g = cleanupTimeout g"

inductive reachable :: "game \<Rightarrow> bool" where
  reachable_init: "reachable (initGame containerWidth)"
| reachable_fire: "reachable g \<Longrightarrow> reachable (fire rnd e g)"

text \<open>
  An event starts a drop when it is a click on the drop button with a bucket selected and
  no drop active, and handleDropBall runs to its end.
\<close>

definition dropStarts :: "rng \<Rightarrow> event \<Rightarrow> game \<Rightarrow> bool" where
  "dropStarts rnd e g =
     (case e of
        DropClick now \<Rightarrow>
          selectedBucket g \<noteq> None \<and> \<not> isGameActive g
          \<and> fst (handleDropBall rnd now g) = Returns ()
      | _ \<Rightarrow> False)"


text \<open>The board of a page whose game container is 820 pixels wide: an 800 by 1040 canvas.\<close>

definition board800 :: game where
  "board800 = initGame 820"



text \<open>
  The board of a page whose game container is 20 pixels wide, a canvas of size zero, and
  three states reached on it when every draw of \<^verbatim>\<open>Math.random()\<close> gives 0.5: bucket 1 is
  selected; the drop button is clicked at time 0; an animation frame arrives at time 16.
\<close>

definition evenDraws :: rng where
  "evenDraws k = 1 / 2"

definition board0 :: game where
  "board0 = initGame 20"

definition selected0 :: game where
  "selected0 = fire evenDraws (SelectBucket 1) board0"

definition dropped0 :: game where
  "dropped0 = fire evenDraws (DropClick 0) selected0"

definition landed0 :: game where
  "landed0 = fire evenDraws (Frame 16) dropped0"

subsection \<open>Auxiliary notions for the proofs\<close>

text \<open>No peg of the list overlaps a ball at the position (x, y).\<close>

definition clearOf :: "real \<Rightarrow> peg list \<Rightarrow> real \<Rightarrow> real \<Rightarrow> bool" where
  "clearOf br pegs x y = (\<forall>p \<in> set pegs. minDist br p \<le> pegDist x y p)"

text \<open>Bucket 1 of the canvas of size zero.\<close>

definition bucket0 :: bucket where
  "bucket0 = \<lparr> bucket_x = 0, bucket_y = 0, bucket_width = 0, bucket_height = 0,
               bucket_number = 1 \<rparr>"

text \<open>A state with the two globals that generateAnimationPath writes set to zero.\<close>

definition animationErased :: "game \<Rightarrow> game" where
  "animationErased g = g \<lparr> animationDuration := 0, randomPos := 0 \<rparr>"

text \<open>
  The invariant behind the bound on the statistics: while a ball with a path is waiting
  for its landing to be handled, the drop that started it has been counted already.
\<close>

definition statsInvariant :: "game \<Rightarrow> bool" where
  "statsInvariant g =
     (successfulDrops g \<le> totalDrops g
      \<and> (\<not> landingHandled g \<and> ball g \<noteq> None \<and> animationPath g \<noteq> None
           \<longrightarrow> successfulDrops g < totalDrops g))"

section \<open>Properties\<close>

subsection \<open>Board layout\<close>

lemma upt_0_5: "[0..<5] = [0, 1, 2, 3, 4]"
  by (simp add: upt_rec)

lemma upt_0_9: "[0..<9] = [0, 1, 2, 3, 4, 5, 6, 7, 8]"
  by (simp add: upt_rec)

subsection \<open>Rounding to double\<close>

lemma pow2_powr: "pow2 k = 2 powr (of_int k)"
proof (cases "0 \<le> k")
  case True
  then show ?thesis by (simp add: pow2_def powr_realpow [symmetric])
next
  case False
  then have "(2::real) powr (of_int k) = 1 / 2 powr (of_int (- k))"
    by (simp add: powr_minus_divide)
  also have "\<dots> = 1 / 2 ^ nat (- k)"
    using False by (simp add: powr_realpow [symmetric])
  finally show ?thesis using False by (simp add: pow2_def)
qed

lemma pow2_pos: "0 < pow2 k"
  by (simp add: pow2_powr)

lemma pow2_add: "pow2 (a + b) = pow2 a * pow2 b"
  by (simp add: pow2_powr powr_add)

lemma pow2_52: "pow2 (e - 52) = pow2 e / 2 ^ 52"
proof -
  have "pow2 e = pow2 (e - 52) * pow2 52" using pow2_add [of "e - 52" 52] by simp
  moreover have "pow2 52 = 2 ^ 52" by (simp add: pow2_def)
  ultimately show ?thesis by simp
qed

lemma exponent_bounds:
  assumes "x \<noteq> 0"
  shows "pow2 \<lfloor>log 2 \<bar>x\<bar>\<rfloor> \<le> \<bar>x\<bar>" "\<bar>x\<bar> < pow2 (\<lfloor>log 2 \<bar>x\<bar>\<rfloor> + 1)"
proof -
  have pos: "0 < \<bar>x\<bar>" using assms by simp
  have "of_int \<lfloor>log 2 \<bar>x\<bar>\<rfloor> \<le> log 2 \<bar>x\<bar>" by simp
  then have "2 powr (of_int \<lfloor>log 2 \<bar>x\<bar>\<rfloor>) \<le> 2 powr (log 2 \<bar>x\<bar>)"
    by (simp only: powr_le_cancel_iff)
  then show "pow2 \<lfloor>log 2 \<bar>x\<bar>\<rfloor> \<le> \<bar>x\<bar>" using pos by (simp add: pow2_powr)
  have "log 2 \<bar>x\<bar> < of_int (\<lfloor>log 2 \<bar>x\<bar>\<rfloor> + 1)" by linarith
  then have "2 powr (log 2 \<bar>x\<bar>) < 2 powr (of_int (\<lfloor>log 2 \<bar>x\<bar>\<rfloor> + 1))"
    by (simp only: powr_less_cancel_iff)
  then show "\<bar>x\<bar> < pow2 (\<lfloor>log 2 \<bar>x\<bar>\<rfloor> + 1)" using pos by (simp add: pow2_powr)
qed

lemma exponent_unique:
  assumes lo: "pow2 e \<le> \<bar>x\<bar>" and hi: "\<bar>x\<bar> < pow2 (e + 1)"
  shows "\<lfloor>log 2 \<bar>x\<bar>\<rfloor> = e"
proof -
  have pos: "0 < \<bar>x\<bar>" using lo pow2_pos [of e] by linarith
  have "2 powr (of_int e) \<le> 2 powr (log 2 \<bar>x\<bar>)" using lo pos by (simp add: pow2_powr)
  then have a: "of_int e \<le> log 2 \<bar>x\<bar>" by (simp only: powr_le_cancel_iff)
  have "2 powr (log 2 \<bar>x\<bar>) < 2 powr (of_int (e + 1))" using hi pos by (simp add: pow2_powr)
  then have b: "log 2 \<bar>x\<bar> < of_int (e + 1)" by (simp only: powr_less_cancel_iff)
  from a b show ?thesis by (simp add: floor_eq_iff)
qed

lemma roundEven_error: "\<bar>of_int (roundEven v) - v\<bar> \<le> 1 / 2"
proof -
  have "of_int \<lfloor>v\<rfloor> \<le> v" "v < of_int \<lfloor>v\<rfloor> + 1" by linarith+
  then show ?thesis by (auto simp: roundEven_def Let_def)
qed

lemma roundEven_of_int: "roundEven (of_int n) = n"
  by (simp add: roundEven_def Let_def)

lemma double_eval:
  assumes "pow2 e \<le> \<bar>x\<bar>" and "\<bar>x\<bar> < pow2 (e + 1)"
  shows "double x = of_int (roundEven (x / pow2 (e - 52))) * pow2 (e - 52)"
proof -
  have "x \<noteq> 0" using assms(1) pow2_pos [of e] by auto
  then show ?thesis using exponent_unique [OF assms] by (simp add: double_def Let_def)
qed

lemma double_error: "\<bar>double x - x\<bar> \<le> \<bar>x\<bar> / 2 ^ 53"
proof (cases "x = 0")
  case True
  then show ?thesis by (simp add: double_def)
next
  case False
  define e where "e = \<lfloor>log 2 \<bar>x\<bar>\<rfloor>"
  define q where "q = pow2 (e - 52)"
  have q: "0 < q" by (simp add: q_def pow2_pos)
  have lo: "pow2 e \<le> \<bar>x\<bar>" unfolding e_def using exponent_bounds(1) [OF False] .
  have qe: "q = pow2 e / 2 ^ 52" by (simp add: q_def pow2_52)
  have d: "double x = of_int (roundEven (x / q)) * q"
    using False by (simp add: double_def Let_def e_def q_def)
  have "double x - x = (of_int (roundEven (x / q)) - x / q) * q"
    using q by (simp add: d algebra_simps)
  then have "\<bar>double x - x\<bar> = \<bar>of_int (roundEven (x / q)) - x / q\<bar> * q"
    using q by (simp add: abs_mult)
  also have "\<dots> \<le> (1 / 2) * q"
    using roundEven_error [of "x / q"] q by (intro mult_right_mono) simp_all
  also have "\<dots> = pow2 e / 2 ^ 53" by (simp add: qe)
  also have "\<dots> \<le> \<bar>x\<bar> / 2 ^ 53" using lo by (simp add: divide_right_mono)
  finally show ?thesis .
qed

lemma double_of_int:
  assumes "\<bar>n\<bar> < 2 ^ 53"
  shows "double (of_int n) = of_int n"
proof (cases "n = 0")
  case True
  then show ?thesis by (simp add: double_def)
next
  case False
  define x :: real where "x = of_int n"
  have x0: "x \<noteq> 0" using False by (simp add: x_def)
  define e where "e = \<lfloor>log 2 \<bar>x\<bar>\<rfloor>"
  have lo: "pow2 e \<le> \<bar>x\<bar>" unfolding e_def using exponent_bounds(1) [OF x0] .
  have "\<bar>x\<bar> < 2 ^ 53"
  proof -
    have "\<bar>x\<bar> = of_int \<bar>n\<bar>" by (simp add: x_def)
    also have "\<dots> < of_int (2 ^ 53)" using assms by (simp only: of_int_less_iff)
    finally show ?thesis by simp
  qed
  then have "pow2 e < pow2 53" using lo by (simp add: pow2_def)
  then have "(2::real) powr (of_int e) < 2 powr (of_int 53)" by (simp only: pow2_powr)
  then have "(of_int e :: real) < of_int 53"
    using powr_less_cancel_iff [of 2 "of_int e" "of_int 53"] by simp
  then have "e < 53" by (simp only: of_int_less_iff)
  then have k: "0 \<le> 52 - e" by simp
  define m where "m = nat (52 - e)"
  have q: "pow2 (e - 52) = 1 / 2 ^ m"
  proof -
    have "pow2 (e - 52) * pow2 (52 - e) = 1" using pow2_add [of "e - 52" "52 - e"] by (simp add: pow2_def)
    moreover have "pow2 (52 - e) = 2 ^ m" using k by (simp add: pow2_def m_def)
    ultimately show ?thesis by (simp add: field_simps)
  qed
  have v: "x / pow2 (e - 52) = of_int (n * 2 ^ m)" by (simp add: q x_def)
  have "double x = of_int (roundEven (x / pow2 (e - 52))) * pow2 (e - 52)"
    using x0 by (simp add: double_def Let_def e_def)
  also have "\<dots> = of_int (roundEven (of_int (n * 2 ^ m))) * pow2 (e - 52)"
    by (simp only: v)
  also have "\<dots> = of_int (n * 2 ^ m) * (1 / 2 ^ m)" by (simp only: roundEven_of_int q)
  also have "\<dots> = x" by (simp add: x_def)
  finally show ?thesis by (simp add: x_def)
qed

lemma double_numeral [simp]:
  "numeral k < (2::int) ^ 53 \<Longrightarrow> double (numeral k) = numeral k"
  using double_of_int [of "numeral k"] by simp

lemma double_zero [simp]: "double 0 = 0"
  by (simp add: double_def)

lemma edge_error:
  assumes W: "0 < W"
    and bw: "\<bar>bw - W\<bar> \<le> W / 2 ^ 53"
    and k: "0 \<le> k" "k \<le> 9 / 2"
    and s: "\<bar>s\<bar> \<le> 1 / 2"
  shows "\<bar>double (double (k * bw) + s * bw) - (k + s) * W\<bar> \<le> 17 * (W / 2 ^ 53)"
proof -
  define u :: real where "u = W / 2 ^ 53"
  have u: "0 < u" "u \<le> W / 100" using W by (simp_all add: u_def)
  have bwu: "\<bar>bw - W\<bar> \<le> u" using bw by (simp add: u_def)
  define z where "z = k * bw"
  define c where "c = double z"
  define y where "y = c + s * bw"
  have rel: "\<And>v. \<bar>double v - v\<bar> \<le> \<bar>v\<bar> / 2 ^ 53" by (rule double_error)
  have scale: "\<And>v m. \<bar>v\<bar> \<le> m * W \<Longrightarrow> \<bar>v\<bar> / 2 ^ 53 \<le> m * u"
    by (simp add: u_def divide_right_mono)
  have z1: "\<bar>z - k * W\<bar> \<le> (9 / 2) * u"
  proof -
    have "\<bar>z - k * W\<bar> = k * \<bar>bw - W\<bar>"
      using k(1) by (simp add: z_def right_diff_distrib [symmetric] abs_mult)
    also have "\<dots> \<le> (9 / 2) * u"
      using k bwu by (intro mult_mono) simp_all
    finally show ?thesis .
  qed
  have kW: "0 \<le> k * W" "k * W \<le> (9 / 2) * W"
    using k W by (simp_all add: mult_right_mono)
  have z2: "\<bar>z\<bar> \<le> 5 * W" using z1 kW u by linarith
  have c1: "\<bar>c - z\<bar> \<le> 5 * u"
    using rel [of z] scale [OF z2] by (simp add: c_def)
  have sb: "\<bar>s * bw - s * W\<bar> \<le> (1 / 2) * u"
  proof -
    have "\<bar>s * bw - s * W\<bar> = \<bar>s\<bar> * \<bar>bw - W\<bar>"
      by (simp add: right_diff_distrib [symmetric] abs_mult)
    also have "\<dots> \<le> (1 / 2) * u"
      using s bwu by (intro mult_mono) simp_all
    finally show ?thesis .
  qed
  have sW: "\<bar>s * W\<bar> \<le> (1 / 2) * W"
  proof -
    have "\<bar>s * W\<bar> = \<bar>s\<bar> * W" using W by (simp add: abs_mult)
    also have "\<dots> \<le> (1 / 2) * W" using s W by (intro mult_right_mono) simp_all
    finally show ?thesis .
  qed
  have ks: "(k + s) * W = k * W + s * W" by (simp add: algebra_simps)
  have y1: "\<bar>y - (k + s) * W\<bar> \<le> 10 * u"
    unfolding ks y_def using c1 z1 sb by linarith
  have y2: "\<bar>y\<bar> \<le> 6 * W"
    using y1 kW sW u unfolding ks by linarith
  have d1: "\<bar>double y - y\<bar> \<le> 6 * u"
    using rel [of y] scale [OF y2] by simp
  have "\<bar>double y - (k + s) * W\<bar> \<le> 16 * u" using d1 y1 by linarith
  then show ?thesis using u unfolding y_def c_def z_def u_def by linarith
qed

subsection \<open>The buckets\<close>

lemma initBuckets_list:
  "bucketLocations (initBuckets g) =
     [\<lparr> bucket_x = double (1 / 2 * double (canvas_width g / 5)),
        bucket_y = canvas_height g * (84 / 100),
        bucket_width = double (canvas_width g / 5),
        bucket_height = canvas_height g * bucketDepth, bucket_number = 1 \<rparr>,
      \<lparr> bucket_x = double (3 / 2 * double (canvas_width g / 5)),
        bucket_y = canvas_height g * (84 / 100),
        bucket_width = double (canvas_width g / 5),
        bucket_height = canvas_height g * bucketDepth, bucket_number = 2 \<rparr>,
      \<lparr> bucket_x = double (5 / 2 * double (canvas_width g / 5)),
        bucket_y = canvas_height g * (84 / 100),
        bucket_width = double (canvas_width g / 5),
        bucket_height = canvas_height g * bucketDepth, bucket_number = 3 \<rparr>,
      \<lparr> bucket_x = double (7 / 2 * double (canvas_width g / 5)),
        bucket_y = canvas_height g * (84 / 100),
        bucket_width = double (canvas_width g / 5),
        bucket_height = canvas_height g * bucketDepth, bucket_number = 4 \<rparr>,
      \<lparr> bucket_x = double (9 / 2 * double (canvas_width g / 5)),
        bucket_y = canvas_height g * (84 / 100),
        bucket_width = double (canvas_width g / 5),
        bucket_height = canvas_height g * bucketDepth, bucket_number = 5 \<rparr>]"
proof -
  have k: "real 0 + 1 / 2 = 1 / 2" "real 1 + 1 / 2 = 3 / 2" "real 2 + 1 / 2 = 5 / 2"
    "real 3 + 1 / 2 = 7 / 2" "real 4 + 1 / 2 = 9 / 2" by simp_all
  show ?thesis
    unfolding initBuckets_def bucketCount_def Let_def upt_0_5 list.map k by simp
qed

lemma less5: "(i::nat) < 5 \<longleftrightarrow> i = 0 \<or> i = 1 \<or> i = 2 \<or> i = 3 \<or> i = 4"
  by auto

lemma less4: "(i::nat) < 4 \<longleftrightarrow> i = 0 \<or> i = 1 \<or> i = 2 \<or> i = 3"
  by auto

lemma snd_resizeCanvas:
  "snd (resizeCanvas containerWidth g) =
     initBuckets (initPegs
       (g \<lparr> canvas_width := canvasAttribute 300 (min (real containerWidth - 20) 800),
            canvas_height := canvasAttribute 150 (min (real containerWidth - 20) 800 * (13 / 10)),
            pegSpacing := js_floor (min (real containerWidth - 20) 800 / 16),
            pegRadius := js_floor (min (real containerWidth - 20) 800 / 100),
            ballRadius := js_floor (min (real containerWidth - 20) 800 / 60) \<rparr>))"
  by (simp add: resizeCanvas_def Let_def)

lemma canvasAttribute_nonneg:
  assumes "0 \<le> v" and "v < 2147483648"
  shows "canvasAttribute d v = of_int \<lfloor>v\<rfloor>"
proof -
  have "0 \<le> \<lfloor>v\<rfloor>" "\<lfloor>v\<rfloor> < 2147483648" using assms by (simp_all add: floor_less_iff)
  then show ?thesis using assms(1) by (simp add: canvasAttribute_def js_trunc_def Let_def)
qed

lemma canvasAttribute_negative:
  assumes "v \<le> - 1" and "- 2147483648 \<le> v"
  shows "canvasAttribute d v = d"
proof -
  have c: "\<lceil>v\<rceil> \<le> - 1" "- 2147483648 \<le> \<lceil>v\<rceil>"
    using assms by (simp_all add: ceiling_le_iff le_ceiling_iff)
  have "(\<lceil>v\<rceil> + 4294967296) mod 4294967296 = \<lceil>v\<rceil> + 4294967296"
    by (rule mod_pos_pos_trivial) (use c in linarith)+
  then have m: "\<lceil>v\<rceil> mod 4294967296 = \<lceil>v\<rceil> + 4294967296"
    by simp
  have big: "\<not> \<lceil>v\<rceil> + 4294967296 \<le> 2147483647" using c by linarith
  have neg: "\<not> 0 \<le> v" using assms(1) by linarith
  show ?thesis
    by (simp only: canvasAttribute_def js_trunc_def Let_def neg m big if_False)
qed

lemma board800_size: "canvas_width board800 = 800" "canvas_height board800 = 1040"
  by (simp_all add: board800_def initGame_def snd_resizeCanvas initBuckets_def initPegs_def
        Let_def canvasAttribute_nonneg)

lemma edge_left:
  assumes w: "0 < w" and k: "1 / 2 \<le> k" "k \<le> 9 / 2"
  shows "\<bar>bucketLeft \<lparr> bucket_x = double (k * double (w / 5)), bucket_y = y,
                         bucket_width = double (w / 5), bucket_height = h,
                         bucket_number = n \<rparr> - (k - 1 / 2) * (w / 5)\<bar>
           \<le> 17 * (w / 5 / 2 ^ 53)"
proof -
  have W: "0 < w / 5" using w by simp
  have bw: "\<bar>double (w / 5) - w / 5\<bar> \<le> w / 5 / 2 ^ 53"
    using double_error [of "w / 5"] W by simp
  have k0: "0 \<le> k" using k(1) by simp
  have s: "\<bar>- (1 / 2) :: real\<bar> \<le> 1 / 2" by simp
  from edge_error [OF W bw k0 k(2) s] show ?thesis
    by (simp add: bucketLeft_def)
qed

lemma edge_right:
  assumes w: "0 < w" and k: "1 / 2 \<le> k" "k \<le> 9 / 2"
  shows "\<bar>bucketRight \<lparr> bucket_x = double (k * double (w / 5)), bucket_y = y,
                          bucket_width = double (w / 5), bucket_height = h,
                          bucket_number = n \<rparr> - (k + 1 / 2) * (w / 5)\<bar>
           \<le> 17 * (w / 5 / 2 ^ 53)"
proof -
  have W: "0 < w / 5" using w by simp
  have bw: "\<bar>double (w / 5) - w / 5\<bar> \<le> w / 5 / 2 ^ 53"
    using double_error [of "w / 5"] W by simp
  have k0: "0 \<le> k" using k(1) by simp
  have s: "\<bar>1 / 2 :: real\<bar> \<le> 1 / 2" by simp
  from edge_error [OF W bw k0 k(2) s] show ?thesis
    by (simp add: bucketRight_def)
qed

lemma board304_size: "canvas_width (initGame 324) = 304"
  by (simp add: initGame_def snd_resizeCanvas initBuckets_def initPegs_def Let_def
        canvasAttribute_nonneg)

lemma double_304:
  "double (304 / 5) = 4278419646001971 / 70368744177664"
  "double (4278419646001971 / 140737488355328) = 4278419646001971 / 140737488355328"
  "double (4278419646001971 / 70368744177664) = 4278419646001971 / 70368744177664"
  by (subst double_eval [where e = 5], simp_all add: pow2_def roundEven_def Let_def,
      subst double_eval [where e = 4], simp_all add: pow2_def roundEven_def Let_def,
      subst double_eval [where e = 5], simp_all add: pow2_def roundEven_def Let_def)

lemma double_304_second:
  "double (12835258938005913 / 140737488355328) = 1604407367250739 / 17592186044416"
  "double (8556839292003941 / 140737488355328) = 8556839292003941 / 140737488355328"
  by (subst double_eval [where e = 6], simp_all add: pow2_def roundEven_def Let_def,
      subst double_eval [where e = 5], simp_all add: pow2_def roundEven_def Let_def)

lemma double_304_last:
  "double (38505776814017739 / 140737488355328) = 4813222101752217 / 17592186044416"
  "double (42784196460019707 / 140737488355328) = 5348024557502463 / 17592186044416"
  by (subst double_eval [where e = 8], simp_all add: pow2_def roundEven_def Let_def,
      subst double_eval [where e = 8], simp_all add: pow2_def roundEven_def Let_def)

text \<open>
  Claim C6, as stated, fails in the arithmetic of the code. In a container 324 pixels
  wide the canvas is 304 pixels wide. The width of a bucket is the double nearest to
  60.8; the right edge of bucket 1 is that number, and the left edge of bucket 2 is the
  next smaller double, so the two spans overlap; the right edge of bucket 5 is the double
  below 304, so the spans do not cover the canvas.
\<close>

theorem initBuckets_rounding_overlap:
  "canvas_width (initGame 324) = 304
   \<and> bucketRight (bucketLocations (initGame 324) ! 0) = 4278419646001971 / 70368744177664
   \<and> bucketLeft (bucketLocations (initGame 324) ! 1) = 8556839292003941 / 140737488355328
   \<and> bucketLeft (bucketLocations (initGame 324) ! 1)
       < bucketRight (bucketLocations (initGame 324) ! 0)
   \<and> bucketRight (bucketLocations (initGame 324) ! 4) = 5348024557502463 / 17592186044416
   \<and> bucketRight (bucketLocations (initGame 324) ! 4) < canvas_width (initGame 324)"
proof -
  have b: "bucketLocations (initGame 324)
             = bucketLocations (initBuckets (initGame 324))"
    by (simp add: initGame_def snd_resizeCanvas initBuckets_def Let_def)
  have r0: "bucketRight (bucketLocations (initGame 324) ! 0)
              = 4278419646001971 / 70368744177664"
    unfolding b initBuckets_list board304_size bucketRight_def
    by (simp add: double_304)
  have l1: "bucketLeft (bucketLocations (initGame 324) ! 1)
              = 8556839292003941 / 140737488355328"
    unfolding b initBuckets_list board304_size bucketLeft_def
    by (simp add: double_304 double_304_second)
  have r4: "bucketRight (bucketLocations (initGame 324) ! 4)
              = 5348024557502463 / 17592186044416"
    unfolding b initBuckets_list board304_size bucketRight_def
    by (simp add: double_304 double_304_last)
  show ?thesis unfolding r0 l1 r4 board304_size by simp
qed

text \<open>
  Claim C6, amended. For every canvas width w from 1 to 2147483647, the positive values of
  the canvas attribute, initBuckets produces exactly 5 buckets of one width, the double
  nearest to w / 5, which differs from w / 5 by at most w / 2^55. Their spans are
  contiguous and cover the interval from 0 to w up to rounding: the left edge of the
  first bucket is within w / 2^50 of 0, the right edge of each bucket is within w / 2^50
  of the left edge of the next, and the right edge of the last bucket is within w / 2^50
  of w.
\<close>

theorem initBuckets_partition:
  assumes w1: "1 \<le> canvas_width g" and w2: "canvas_width g \<le> 2147483647"
  shows "length (bucketLocations (initBuckets g)) = 5
    \<and> (\<forall>b \<in> set (bucketLocations (initBuckets g)).
          bucket_width b = double (canvas_width g / 5))
    \<and> \<bar>double (canvas_width g / 5) - canvas_width g / 5\<bar> \<le> canvas_width g / 2 ^ 55
    \<and> \<bar>bucketLeft (bucketLocations (initBuckets g) ! 0)\<bar> \<le> canvas_width g / 2 ^ 50
    \<and> (\<forall>i < 4. \<bar>bucketRight (bucketLocations (initBuckets g) ! i)
                   - bucketLeft (bucketLocations (initBuckets g) ! Suc i)\<bar>
                 \<le> canvas_width g / 2 ^ 50)
    \<and> \<bar>bucketRight (bucketLocations (initBuckets g) ! 4) - canvas_width g\<bar>
         \<le> canvas_width g / 2 ^ 50"
proof -
  let ?w = "canvas_width g"
  let ?bs = "bucketLocations (initBuckets g)"
  have w: "0 < ?w" using w1 by simp
  define u where "u = ?w / 5 / 2 ^ 53"
  have u: "0 < u" "17 * u \<le> ?w / 2 ^ 50" "34 * u \<le> ?w / 2 ^ 50" "u \<le> ?w / 2 ^ 55"
    using w by (simp_all add: u_def)
  have len: "length ?bs = 5"
    by (simp add: initBuckets_list)
  have wid: "\<forall>b \<in> set ?bs. bucket_width b = double (?w / 5)"
    by (simp add: initBuckets_list)
  have bw: "\<bar>double (?w / 5) - ?w / 5\<bar> \<le> ?w / 2 ^ 55"
    using double_error [of "?w / 5"] w u(4) by (simp add: u_def)
  have l0: "\<bar>bucketLeft (?bs ! 0) - 0 * (?w / 5)\<bar> \<le> 17 * u"
    and l1: "\<bar>bucketLeft (?bs ! 1) - 1 * (?w / 5)\<bar> \<le> 17 * u"
    and l2: "\<bar>bucketLeft (?bs ! 2) - 2 * (?w / 5)\<bar> \<le> 17 * u"
    and l3: "\<bar>bucketLeft (?bs ! 3) - 3 * (?w / 5)\<bar> \<le> 17 * u"
    and l4: "\<bar>bucketLeft (?bs ! 4) - 4 * (?w / 5)\<bar> \<le> 17 * u"
    unfolding initBuckets_list u_def
    using edge_left [OF w, of "1 / 2"] edge_left [OF w, of "3 / 2"] edge_left [OF w, of "5 / 2"]
      edge_left [OF w, of "7 / 2"] edge_left [OF w, of "9 / 2"]
    by simp_all
  have r0: "\<bar>bucketRight (?bs ! 0) - 1 * (?w / 5)\<bar> \<le> 17 * u"
    and r1: "\<bar>bucketRight (?bs ! 1) - 2 * (?w / 5)\<bar> \<le> 17 * u"
    and r2: "\<bar>bucketRight (?bs ! 2) - 3 * (?w / 5)\<bar> \<le> 17 * u"
    and r3: "\<bar>bucketRight (?bs ! 3) - 4 * (?w / 5)\<bar> \<le> 17 * u"
    and r4: "\<bar>bucketRight (?bs ! 4) - 5 * (?w / 5)\<bar> \<le> 17 * u"
    unfolding initBuckets_list u_def
    using edge_right [OF w, of "1 / 2"] edge_right [OF w, of "3 / 2"]
      edge_right [OF w, of "5 / 2"] edge_right [OF w, of "7 / 2"] edge_right [OF w, of "9 / 2"]
    by simp_all
  have first: "\<bar>bucketLeft (?bs ! 0)\<bar> \<le> ?w / 2 ^ 50"
    using l0 u(2) by simp
  have contig: "\<forall>i < 4. \<bar>bucketRight (?bs ! i) - bucketLeft (?bs ! Suc i)\<bar> \<le> ?w / 2 ^ 50"
  proof (intro allI impI)
    fix i :: nat
    assume "i < 4"
    then consider "i = 0" | "i = 1" | "i = 2" | "i = 3" by (auto simp: less4)
    then show "\<bar>bucketRight (?bs ! i) - bucketLeft (?bs ! Suc i)\<bar> \<le> ?w / 2 ^ 50"
    proof cases
      case 1
      have "\<bar>bucketRight (?bs ! 0) - bucketLeft (?bs ! 1)\<bar> \<le> 34 * u" using r0 l1 by linarith
      then show ?thesis using 1 u(3) by simp
    next
      case 2
      have "\<bar>bucketRight (?bs ! 1) - bucketLeft (?bs ! 2)\<bar> \<le> 34 * u" using r1 l2 by linarith
      then show ?thesis using 2 u(3) by (simp add: numeral_2_eq_2)
    next
      case 3
      have "\<bar>bucketRight (?bs ! 2) - bucketLeft (?bs ! 3)\<bar> \<le> 34 * u" using r2 l3 by linarith
      then show ?thesis using 3 u(3) by (simp add: numeral_3_eq_3)
    next
      case 4
      have "\<bar>bucketRight (?bs ! 3) - bucketLeft (?bs ! 4)\<bar> \<le> 34 * u" using r3 l4 by linarith
      have s: "Suc 3 = 4" by simp
      from \<open>\<bar>bucketRight (?bs ! 3) - bucketLeft (?bs ! 4)\<bar> \<le> 34 * u\<close>
      show ?thesis unfolding 4 s using u(3) by linarith
    qed
  qed
  have last: "\<bar>bucketRight (?bs ! 4) - ?w\<bar> \<le> ?w / 2 ^ 50"
    using r4 u(2) by simp
  from len wid bw first contig last show ?thesis by blast
qed

theorem initBuckets_partition_witness:
  "1 \<le> canvas_width (initGame 324) \<and> canvas_width (initGame 324) \<le> 2147483647
   \<and> length (bucketLocations (initBuckets (initGame 324))) = 5
   \<and> \<bar>bucketRight (bucketLocations (initBuckets (initGame 324)) ! 0)
        - bucketLeft (bucketLocations (initBuckets (initGame 324)) ! Suc 0)\<bar>
       \<le> canvas_width (initGame 324) / 2 ^ 50
   \<and> \<bar>bucketRight (bucketLocations (initBuckets (initGame 324)) ! 4)
        - canvas_width (initGame 324)\<bar> \<le> canvas_width (initGame 324) / 2 ^ 50"
proof -
  have w1: "1 \<le> canvas_width (initGame 324)" by (simp add: board304_size)
  have w2: "canvas_width (initGame 324) \<le> 2147483647" by (simp add: board304_size)
  have i: "(0::nat) < 4" by simp
  from initBuckets_partition [OF w1 w2] w1 w2 i show ?thesis by blast
qed

subsection \<open>The layout\<close>

lemma pegsInRow_values:
  "pegsInRow 0 = 1" "pegsInRow 1 = 2" "pegsInRow (Suc 0) = 2" "pegsInRow 2 = 4" "pegsInRow 3 = 5"
  "pegsInRow 4 = 6" "pegsInRow 5 = 7" "pegsInRow 6 = 9" "pegsInRow 7 = 10" "pegsInRow 8 = 11"
  by (simp_all add: pegsInRow_def pegRows_def maxRowPegs_def js_round_def Let_def)

lemma length_initPegs: "length (pegLocations (initPegs g)) = 55"
  by (simp add: initPegs_def pegRows_def upt_0_9 rowPegs_def pegsInRow_values Let_def)

lemma initPegs_radius:
  "p \<in> set (pegLocations (initPegs g)) \<Longrightarrow> peg_radius p = pegRadius g"
  by (auto simp: initPegs_def rowPegs_def Let_def)

lemma initPegs_negative_radius:
  "list_ex (\<lambda>p. peg_radius p < 0) (pegLocations (initPegs g)) = (pegRadius g < 0)"
proof -
  have "pegLocations (initPegs g) \<noteq> []" using length_initPegs [of g] by auto
  then obtain p where p: "p \<in> set (pegLocations (initPegs g))"
    by (cases "pegLocations (initPegs g)") auto
  show ?thesis using p initPegs_radius [of _ g] by (auto simp: list_ex_iff)
qed

lemma layout_width:
  "min (real containerWidth - 20) 800 = of_int (min (int containerWidth - 20) 800)"
  by (simp add: min_def)

lemma resizeCanvas_canvas:
  "canvas_width (snd (resizeCanvas containerWidth g))
     = (if containerWidth < 20 then 300 else min (real containerWidth - 20) 800)"
  "canvas_height (snd (resizeCanvas containerWidth g))
     = (if containerWidth < 20 then 150
        else of_int \<lfloor>min (real containerWidth - 20) 800 * (13 / 10)\<rfloor>)"
proof -
  let ?w = "min (real containerWidth - 20) 800"
  have cw: "canvas_width (snd (resizeCanvas containerWidth g)) = canvasAttribute 300 ?w"
    and ch: "canvas_height (snd (resizeCanvas containerWidth g))
               = canvasAttribute 150 (?w * (13 / 10))"
    by (simp_all add: snd_resizeCanvas initBuckets_def initPegs_def Let_def)
  show "canvas_width (snd (resizeCanvas containerWidth g))
     = (if containerWidth < 20 then 300 else ?w)"
  proof (cases "containerWidth < 20")
    case True
    then have "real containerWidth \<le> 19" by simp
    then have "?w \<le> - 1" "- 2147483648 \<le> ?w" by simp_all
    then show ?thesis unfolding cw using True by (simp add: canvasAttribute_negative)
  next
    case False
    then have "20 \<le> real containerWidth" by simp
    then have b: "0 \<le> ?w" "?w < 2147483648" by simp_all
    have "of_int \<lfloor>?w\<rfloor> = ?w" unfolding layout_width by simp
    then show ?thesis unfolding cw using False canvasAttribute_nonneg [OF b] by simp
  qed
  show "canvas_height (snd (resizeCanvas containerWidth g))
     = (if containerWidth < 20 then 150 else of_int \<lfloor>?w * (13 / 10)\<rfloor>)"
  proof (cases "containerWidth < 20")
    case True
    then have "real containerWidth \<le> 19" by simp
    then have "?w * (13 / 10) \<le> - 1" "- 2147483648 \<le> ?w * (13 / 10)" by simp_all
    then show ?thesis unfolding ch using True by (simp add: canvasAttribute_negative)
  next
    case False
    then have "20 \<le> real containerWidth" by simp
    then have lo: "0 \<le> ?w" by simp
    have hi: "?w \<le> 800" by simp
    have b: "0 \<le> ?w * (13 / 10)" "?w * (13 / 10) < 2147483648"
    proof -
      show "0 \<le> ?w * (13 / 10)" using lo by simp
      have "?w * (13 / 10) \<le> 800 * (13 / 10)"
        using hi by (intro mult_right_mono) simp_all
      then show "?w * (13 / 10) < 2147483648" by (rule le_less_trans) simp
    qed
    show ?thesis unfolding ch using False canvasAttribute_nonneg [OF b] by simp
  qed
qed

lemma resizeCanvas_radii:
  "pegSpacing (snd (resizeCanvas containerWidth g))
     = canvas_width (snd (resizeCanvas containerWidth g)) / 12"
  "pegRadius (snd (resizeCanvas containerWidth g))
     = of_int \<lfloor>min (real containerWidth - 20) 800 / 100\<rfloor>"
  "ballRadius (snd (resizeCanvas containerWidth g))
     = of_int \<lfloor>min (real containerWidth - 20) 800 / 60\<rfloor>"
  by (simp_all add: snd_resizeCanvas initBuckets_def initPegs_def js_floor_def Let_def
        maxRowPegs_def)

lemma resizeCanvas_pegs:
  "length (pegLocations (snd (resizeCanvas containerWidth g))) = 55"
  "list_ex (\<lambda>p. peg_radius p < 0) (pegLocations (snd (resizeCanvas containerWidth g)))
     = (pegRadius (snd (resizeCanvas containerWidth g)) < 0)"
  "length (bucketLocations (snd (resizeCanvas containerWidth g))) = 5"
proof -
  let ?g2 = "g \<lparr> canvas_width := canvasAttribute 300 (min (real containerWidth - 20) 800),
      canvas_height := canvasAttribute 150 (min (real containerWidth - 20) 800 * (13 / 10)),
      pegSpacing := js_floor (min (real containerWidth - 20) 800 / 16),
      pegRadius := js_floor (min (real containerWidth - 20) 800 / 100),
      ballRadius := js_floor (min (real containerWidth - 20) 800 / 60) \<rparr>"
  have p: "pegLocations (snd (resizeCanvas containerWidth g)) = pegLocations (initPegs ?g2)"
    and r: "pegRadius (snd (resizeCanvas containerWidth g)) = pegRadius (initPegs ?g2)"
    by (simp_all add: snd_resizeCanvas initBuckets_def Let_def)
  have r2: "pegRadius (initPegs ?g2) = pegRadius ?g2" by (simp add: initPegs_def)
  show "length (pegLocations (snd (resizeCanvas containerWidth g))) = 55"
    unfolding p by (rule length_initPegs)
  show "list_ex (\<lambda>p. peg_radius p < 0) (pegLocations (snd (resizeCanvas containerWidth g)))
     = (pegRadius (snd (resizeCanvas containerWidth g)) < 0)"
    unfolding p r r2 by (rule initPegs_negative_radius)
  show "length (bucketLocations (snd (resizeCanvas containerWidth g))) = 5"
    unfolding snd_resizeCanvas by (simp add: initBuckets_list)
qed

lemma resizeCanvas_keeps:
  "isGameActive (snd (resizeCanvas containerWidth g)) = isGameActive g"
  "ball (snd (resizeCanvas containerWidth g)) = ball g"
  "totalDrops (snd (resizeCanvas containerWidth g)) = totalDrops g"
  "successfulDrops (snd (resizeCanvas containerWidth g)) = successfulDrops g"
  "landingHandled (snd (resizeCanvas containerWidth g)) = landingHandled g"
  "animationPath (snd (resizeCanvas containerWidth g)) = animationPath g"
  "gameState (snd (resizeCanvas containerWidth g)) = gameState g"
  "selectedBucket (snd (resizeCanvas containerWidth g)) = selectedBucket g"
  "targetBucket (snd (resizeCanvas containerWidth g)) = targetBucket g"
  by (simp_all add: snd_resizeCanvas initBuckets_def initPegs_def Let_def)

lemma fst_resizeCanvas:
  "fst (resizeCanvas containerWidth g)
     = (if isGameActive g then Returns ()
        else drawGame (snd (resizeCanvas containerWidth g)))"
proof -
  have "fst (resizeCanvas containerWidth g)
     = (if isGameActive (snd (resizeCanvas containerWidth g)) then Returns ()
        else drawGame (snd (resizeCanvas containerWidth g)))"
    by (simp add: resizeCanvas_def Let_def)
  then show ?thesis by (simp only: resizeCanvas_keeps)
qed

lemma floor_negative_iff:
  "(of_int \<lfloor>min (real containerWidth - 20) 800 / d\<rfloor> < (0::real)) = (containerWidth < 20)"
  if "0 < d" for d :: real
proof -
  have "(of_int \<lfloor>min (real containerWidth - 20) 800 / d\<rfloor> < (0::real))
          = (min (real containerWidth - 20) 800 / d < 0)"
    by (simp add: floor_less_iff)
  also have "\<dots> = (min (real containerWidth - 20) 800 < 0)"
    using that by (simp add: divide_less_0_iff)
  also have "\<dots> = (containerWidth < 20)" by auto
  finally show ?thesis .
qed

text \<open>
  Claim C7, as stated, fails: resizeCanvas has no clamp. In a container 20 pixels wide the
  canvas width is 0, and peg spacing, peg radius and ball radius are all 0. In a container
  less than 20 pixels wide, here 0, the radii are negative and the redraw at the end of
  resizeCanvas throws.
\<close>

theorem resizeCanvas_zero_width:
  "pegSpacing (snd (resizeCanvas 20 initialGame)) = 0
   \<and> pegRadius (snd (resizeCanvas 20 initialGame)) = 0
   \<and> ballRadius (snd (resizeCanvas 20 initialGame)) = 0
   \<and> pegRadius (snd (resizeCanvas 0 initialGame)) = - 1
   \<and> ballRadius (snd (resizeCanvas 0 initialGame)) = - 1
   \<and> fst (resizeCanvas 0 initialGame) = Throws IndexSizeError"
proof -
  have n: "\<lfloor>- (1 / 5 :: real)\<rfloor> = - 1" "\<lfloor>- (1 / 3 :: real)\<rfloor> = - 1"
    by (simp_all add: floor_eq_iff)
  have a: "pegSpacing (snd (resizeCanvas 20 initialGame)) = 0"
    "pegRadius (snd (resizeCanvas 20 initialGame)) = 0"
    "ballRadius (snd (resizeCanvas 20 initialGame)) = 0"
    by (simp_all add: resizeCanvas_radii resizeCanvas_canvas)
  have b: "pegRadius (snd (resizeCanvas 0 initialGame)) = - 1"
    "ballRadius (snd (resizeCanvas 0 initialGame)) = - 1"
    by (simp_all add: resizeCanvas_radii n)
  have "fst (resizeCanvas 0 initialGame) = drawGame (snd (resizeCanvas 0 initialGame))"
    by (simp add: fst_resizeCanvas initialGame_def)
  also have "\<dots> = Throws IndexSizeError"
    unfolding drawGame_def resizeCanvas_pegs(2) b by simp
  finally show ?thesis using a b by simp
qed

text \<open>
  Claim C7, amended. Board layout has no clamp, and it can throw. For a container of
  offsetWidth c, with w = min (c - 20) 800: the peg radius is floor (w / 100) and the
  ball radius is floor (w / 60), so the peg radius is positive only from c = 120 on, the
  ball radius only from c = 80 on, and both are negative exactly for c < 20. The canvas is
  w wide and trunc (1.3 w) high for c >= 20, and has the default size 300 by 150 of the
  DOM for c < 20. The peg spacing is the canvas width / 12: positive except for c = 20,
  where it is 0. In every case 55 pegs and 5 buckets are laid out. While a drop is
  active resizeCanvas does not redraw and returns; otherwise its redraw throws an
  IndexSizeError exactly when c < 20, or when a ball with a negative radius is left on
  the board.
\<close>

theorem resizeCanvas_layout:
  "canvas_width (snd (resizeCanvas c g)) = (if c < 20 then 300 else min (real c - 20) 800)
   \<and> canvas_height (snd (resizeCanvas c g))
       = (if c < 20 then 150 else of_int \<lfloor>min (real c - 20) 800 * (13 / 10)\<rfloor>)
   \<and> pegSpacing (snd (resizeCanvas c g)) = canvas_width (snd (resizeCanvas c g)) / 12
   \<and> pegRadius (snd (resizeCanvas c g)) = of_int \<lfloor>min (real c - 20) 800 / 100\<rfloor>
   \<and> ballRadius (snd (resizeCanvas c g)) = of_int \<lfloor>min (real c - 20) 800 / 60\<rfloor>
   \<and> length (pegLocations (snd (resizeCanvas c g))) = 55
   \<and> length (bucketLocations (snd (resizeCanvas c g))) = 5
   \<and> (0 < pegSpacing (snd (resizeCanvas c g))) = (c \<noteq> 20)
   \<and> (0 < pegRadius (snd (resizeCanvas c g))) = (120 \<le> c)
   \<and> (0 < ballRadius (snd (resizeCanvas c g))) = (80 \<le> c)
   \<and> (pegRadius (snd (resizeCanvas c g)) < 0) = (c < 20)
   \<and> (ballRadius (snd (resizeCanvas c g)) < 0) = (c < 20)
   \<and> fst (resizeCanvas c g)
       = (if isGameActive g then Returns ()
          else if c < 20 then Throws IndexSizeError
          else (case ball g of
                  None \<Rightarrow> Returns ()
                | Some b \<Rightarrow> if ball_radius b < 0 then Throws IndexSizeError else Returns ()))"
proof -
  let ?w = "min (real c - 20) 800"
  let ?r = "snd (resizeCanvas c g)"
  note canvas = resizeCanvas_canvas [of c g]
  note radii = resizeCanvas_radii [of c g]
  have p1: "(0 < pegSpacing ?r) = (c \<noteq> 20)"
    unfolding radii canvas by auto
  have p2: "(0 < pegRadius ?r) = (120 \<le> c)"
    unfolding radii by (auto simp: floor_less_iff le_floor_iff)
  have p3: "(0 < ballRadius ?r) = (80 \<le> c)"
    unfolding radii by (auto simp: floor_less_iff le_floor_iff)
  have n2: "(pegRadius ?r < 0) = (c < 20)"
    unfolding radii by (rule floor_negative_iff) simp
  have n3: "(ballRadius ?r < 0) = (c < 20)"
    unfolding radii by (rule floor_negative_iff) simp
  have thrown: "fst (resizeCanvas c g)
       = (if isGameActive g then Returns ()
          else if c < 20 then Throws IndexSizeError
          else (case ball g of
                  None \<Rightarrow> Returns ()
                | Some b \<Rightarrow> if ball_radius b < 0 then Throws IndexSizeError else Returns ()))"
    unfolding fst_resizeCanvas drawGame_def resizeCanvas_pegs(2) n2 resizeCanvas_keeps
    by simp
  show ?thesis
    using canvas radii resizeCanvas_pegs(1) [of c g] resizeCanvas_pegs(3) [of c g]
      p1 p2 p3 n2 n3 thrown
    by (intro conjI)
qed

lemma board800_stats:
  "totalDrops board800 = 0" "successfulDrops board800 = 0" "gameState board800 = Ready"
  "animationPath board800 = None" "selectedBucket board800 = None" "\<not> isGameActive board800"
  by (simp_all add: board800_def initGame_def resizeCanvas_keeps initialGame_def)


lemma board800_buckets:
  "bucketLocations board800 =
     [\<lparr> bucket_x = 80, bucket_y = 4368 / 5, bucket_width = 160, bucket_height = 936 / 5,
        bucket_number = 1 \<rparr>,
      \<lparr> bucket_x = 240, bucket_y = 4368 / 5, bucket_width = 160, bucket_height = 936 / 5,
        bucket_number = 2 \<rparr>,
      \<lparr> bucket_x = 400, bucket_y = 4368 / 5, bucket_width = 160, bucket_height = 936 / 5,
        bucket_number = 3 \<rparr>,
      \<lparr> bucket_x = 560, bucket_y = 4368 / 5, bucket_width = 160, bucket_height = 936 / 5,
        bucket_number = 4 \<rparr>,
      \<lparr> bucket_x = 720, bucket_y = 4368 / 5, bucket_width = 160, bucket_height = 936 / 5,
        bucket_number = 5 \<rparr>]"
proof -
  have "bucketLocations board800 = bucketLocations (initBuckets board800)"
    by (simp add: board800_def initGame_def snd_resizeCanvas initBuckets_def Let_def)
  then show ?thesis
    unfolding initBuckets_list board800_size by (simp add: bucketDepth_def)
qed












subsection \<open>Statistics\<close>

lemma erased_generateAnimationPath:
  "animationErased (snd (generateAnimationPath rnd startX startY t g)) = animationErased g"
  by (simp add: generateAnimationPath_def animationErased_def Let_def split: option.splits)

lemma erased_calculateInitialBallPosition:
  "animationErased (snd (calculateInitialBallPosition rnd g)) = animationErased g"
  by (simp add: calculateInitialBallPosition_def animationErased_def Let_def)

lemma erased_searchPath:
  "animationErased (snd (searchPath rnd sel n g)) = animationErased g"
proof (induction n arbitrary: g)
  case 0
  show ?case by simp
next
  case (Suc n)
  obtain x g1 where c: "calculateInitialBallPosition rnd g = (x, g1)"
    by (cases "calculateInitialBallPosition rnd g")
  obtain r g2 where gen: "generateAnimationPath rnd x (canvas_height g1 * (5 / 100)) sel g1 = (r, g2)"
    by (cases "generateAnimationPath rnd x (canvas_height g1 * (5 / 100)) sel g1")
  have e1: "animationErased g1 = animationErased g"
    using erased_calculateInitialBallPosition [of rnd g] c by simp
  have e2: "animationErased g2 = animationErased g1"
    using erased_generateAnimationPath [of rnd x "canvas_height g1 * (5 / 100)" sel g1] gen by simp
  show ?case
  proof (cases r)
    case (Throws e)
    then show ?thesis using c gen e1 e2 by (simp add: Let_def)
  next
    case (Returns testPath)
    then show ?thesis using c gen e1 e2 Suc.IH [of g2] by (simp add: Let_def)
  qed
qed

lemma erased_cong:
  assumes "animationErased g' = animationErased g"
    and "\<And>h. f (animationErased h) = f h"
  shows "f g' = f g"
  by (metis assms)

lemma erased_fields:
  assumes e: "animationErased g' = animationErased g"
  shows "ball g' = ball g" "animationPath g' = animationPath g"
    "landingHandled g' = landingHandled g" "successfulDrops g' = successfulDrops g"
    "totalDrops g' = totalDrops g" "gameState g' = gameState g"
    "bucketLocations g' = bucketLocations g" "targetBucket g' = targetBucket g"
    "selectedBucket g' = selectedBucket g" "isGameActive g' = isGameActive g"
    "canvas_height g' = canvas_height g" "ballRadius g' = ballRadius g"
    "lastBucketLanded g' = lastBucketLanded g" "lastResult g' = lastResult g"
  by (rule erased_cong [OF e], simp add: animationErased_def)+

lemma statsInvariant_startDrop:
  "successfulDrops g \<le> totalDrops g \<Longrightarrow> statsInvariant (startDrop now sel x p g)"
  by (simp add: statsInvariant_def startDrop_def)

lemma handleDropBall_cases:
  "snd (handleDropBall rnd now g) = g
   \<or> (animationErased (snd (handleDropBall rnd now g))
        = animationErased (g \<lparr> isGameActive := True, lastTimestamp := 0 \<rparr>))
   \<or> (\<exists>x p g'. snd (handleDropBall rnd now g) = startDrop now (the (selectedBucket g)) x p g'
         \<and> animationErased g' = animationErased (g \<lparr> isGameActive := True, lastTimestamp := 0 \<rparr>))"
proof (cases "selectedBucket g")
  case None
  then show ?thesis by (simp add: handleDropBall_def)
next
  case (Some sel)
  show ?thesis
  proof (cases "isGameActive g")
    case True
    then show ?thesis using Some by (simp add: handleDropBall_def)
  next
    case False
    let ?g1 = "g \<lparr> isGameActive := True, lastTimestamp := 0 \<rparr>"
    obtain r g2 where sp: "searchPath rnd sel 100 ?g1 = (r, g2)"
      by (cases "searchPath rnd sel 100 ?g1")
    have e2: "animationErased g2 = animationErased ?g1"
      using erased_searchPath [of rnd sel 100 ?g1] sp by simp
    show ?thesis
    proof (cases r)
      case (Throws e)
      then show ?thesis using Some False sp e2 by (simp add: handleDropBall_def)
    next
      case (Returns found)
      show ?thesis
      proof (cases found)
        case (Some v)
        obtain x p where v: "v = (x, p)" by (cases v)
        have "snd (handleDropBall rnd now g) = startDrop now sel x p g2"
          using \<open>selectedBucket g = Some sel\<close> False sp Returns Some v
          by (simp add: handleDropBall_def)
        then show ?thesis using e2 \<open>selectedBucket g = Some sel\<close> by auto
      next
        case None
        show ?thesis
        proof (cases "lookupBucket (bucketLocations g2) sel")
          case None
          then show ?thesis
            using \<open>selectedBucket g = Some sel\<close> False sp Returns \<open>found = None\<close> e2
            by (simp add: handleDropBall_def)
        next
          case (Some tb)
          let ?x = "bucket_x tb + (rnd (randomPos g2) - 1 / 2) * 20"
          let ?p = "map (directPoint rnd tb g2 ?x) [0..<51]"
          let ?g3 = "g2 \<lparr> randomPos := randomPos g2 + 52 \<rparr>"
          have "snd (handleDropBall rnd now g) = startDrop now sel ?x ?p ?g3"
            using \<open>selectedBucket g = Some sel\<close> False sp Returns \<open>found = None\<close> Some
            by (simp add: handleDropBall_def directPath_def Let_def)
          moreover have "animationErased ?g3 = animationErased ?g1"
            using e2 by (simp add: animationErased_def)
          ultimately show ?thesis using \<open>selectedBucket g = Some sel\<close> by auto
        qed
      qed
    qed
  qed
qed

lemma statsInvariant_erased:
  assumes e: "animationErased g' = animationErased g"
  shows "statsInvariant g' = statsInvariant g"
  unfolding statsInvariant_def erased_fields [OF e] by (rule refl)

lemma statsInvariant_handleDropBall:
  assumes "statsInvariant g"
  shows "statsInvariant (snd (handleDropBall rnd now g))"
proof -
  let ?g1 = "g \<lparr> isGameActive := True, lastTimestamp := 0 \<rparr>"
  have i1: "statsInvariant ?g1" using assms by (simp add: statsInvariant_def)
  from handleDropBall_cases [of rnd now g] show ?thesis
  proof (elim disjE exE conjE)
    assume "snd (handleDropBall rnd now g) = g"
    then show ?thesis using assms by simp
  next
    assume "animationErased (snd (handleDropBall rnd now g)) = animationErased ?g1"
    then show ?thesis using i1 statsInvariant_erased by blast
  next
    fix x p g'
    assume s: "snd (handleDropBall rnd now g) = startDrop now (the (selectedBucket g)) x p g'"
      and e: "animationErased g' = animationErased ?g1"
    have "statsInvariant g'" using i1 e statsInvariant_erased by blast
    then have "successfulDrops g' \<le> totalDrops g'" by (simp add: statsInvariant_def)
    then show ?thesis unfolding s by (rule statsInvariant_startDrop)
  qed
qed

lemma updateBallAnimation_cases:
  "snd (updateBallAnimation t g) = g
   \<or> (\<exists>b. ball g \<noteq> None \<and> animationPath g \<noteq> None
         \<and> snd (updateBallAnimation t g) = g \<lparr> ball := Some b \<rparr>)
   \<or> (\<exists>b. ball g \<noteq> None \<and> animationPath g \<noteq> None \<and> landingHandled g
         \<and> snd (updateBallAnimation t g)
             = g \<lparr> ball := Some b, isGameActive := False, gameState := Completed \<rparr>)
   \<or> (\<exists>b n ok. ball g \<noteq> None \<and> animationPath g \<noteq> None \<and> \<not> landingHandled g
         \<and> snd (updateBallAnimation t g)
             = (handleBallLanding n ok (g \<lparr> ball := Some b \<rparr>))
                 \<lparr> isGameActive := False, gameState := Completed \<rparr>)"
proof (cases "ball g")
  case None
  then show ?thesis by (simp add: updateBallAnimation_def)
next
  case (Some b)
  show ?thesis
  proof (cases "animationPath g")
    case None
    then show ?thesis using Some by (simp add: updateBallAnimation_def)
  next
    case (Some p)
    note b = \<open>ball g = Some b\<close>
    show ?thesis
    proof (cases "isGameActive g")
      case False
      then show ?thesis using b Some by (simp add: updateBallAnimation_def)
    next
      case True
      let ?e = "t - animationStartTime g"
      show ?thesis
      proof (cases "animationDuration g \<le> ?e")
        case False
        then have u: "updateBallAnimation t g = advanceAnimation ?e b p g"
          using b Some True by (simp add: updateBallAnimation_def Let_def)
        let ?new = "interpolate ?e (findSegment ?e p (hd p, hd (tl p)))"
        have "snd (advanceAnimation ?e b p g) = g
              \<or> snd (advanceAnimation ?e b p g)
                  = g \<lparr> ball := Some (b \<lparr> ball_x := fst ?new, ball_y := snd ?new \<rparr>) \<rparr>"
        proof (cases p)
          case Nil
          then show ?thesis by (simp add: advanceAnimation_def)
        next
          case (Cons a q)
          then show ?thesis
            by (cases q) (simp_all add: advanceAnimation_def Let_def del: findSegment.simps)
        qed
        then show ?thesis unfolding u using b Some by blast
      next
        case over: True
        then have u: "updateBallAnimation t g = completeAnimation b p g"
          using b Some True by (simp add: updateBallAnimation_def Let_def)
        show ?thesis
        proof (cases p)
          case Nil
          then show ?thesis unfolding u by (simp add: completeAnimation_def)
        next
          case (Cons k ks)
          let ?b1 = "b \<lparr> ball_x := kf_x (last p), ball_y := kf_y (last p) \<rparr>"
          let ?g1 = "g \<lparr> ball := Some ?b1 \<rparr>"
          show ?thesis
          proof (cases "landingHandled g")
            case True
            then have "snd (completeAnimation b p g)
                = g \<lparr> ball := Some ?b1, isGameActive := False, gameState := Completed \<rparr>"
              using Cons by (simp add: completeAnimation_def Let_def finishAnimation_def)
            then show ?thesis unfolding u using b Some True by blast
          next
            case False
            show ?thesis
            proof (cases "classifyLanding ?g1 (last p)")
              case (Throws e)
              then have "snd (completeAnimation b p g) = ?g1"
                using Cons False by (simp add: completeAnimation_def Let_def)
              then show ?thesis unfolding u using b Some by blast
            next
              case (Returns n)
              then have "snd (completeAnimation b p g)
                  = (handleBallLanding n (n = targetBucket ?g1) ?g1)
                      \<lparr> isGameActive := False, gameState := Completed \<rparr>"
                using Cons False
                by (simp add: completeAnimation_def Let_def finishAnimation_def)
              then show ?thesis unfolding u using b Some False by blast
            qed
          qed
        qed
      qed
    qed
  qed
qed

lemma statsInvariant_updateBallAnimation:
  assumes "statsInvariant g"
  shows "statsInvariant (snd (updateBallAnimation t g))"
proof -
  from updateBallAnimation_cases [of t g] show ?thesis
  proof (elim disjE exE conjE)
    assume "snd (updateBallAnimation t g) = g"
    then show ?thesis using assms by simp
  next
    fix b
    assume "ball g \<noteq> None" "animationPath g \<noteq> None"
      and u: "snd (updateBallAnimation t g) = g \<lparr> ball := Some b \<rparr>"
    then show ?thesis using assms unfolding u by (simp add: statsInvariant_def)
  next
    fix b
    assume "ball g \<noteq> None" "animationPath g \<noteq> None" "landingHandled g"
      and u: "snd (updateBallAnimation t g)
                = g \<lparr> ball := Some b, isGameActive := False, gameState := Completed \<rparr>"
    then show ?thesis using assms unfolding u by (simp add: statsInvariant_def)
  next
    fix b n ok
    assume bp: "ball g \<noteq> None" "animationPath g \<noteq> None" "\<not> landingHandled g"
      and u: "snd (updateBallAnimation t g)
                = (handleBallLanding n ok (g \<lparr> ball := Some b \<rparr>))
                    \<lparr> isGameActive := False, gameState := Completed \<rparr>"
    from assms bp have lt: "successfulDrops g < totalDrops g"
      by (simp add: statsInvariant_def)
    show ?thesis unfolding u using bp(3) lt
      by (cases ok) (simp_all add: statsInvariant_def handleBallLanding_def Let_def)
  qed
qed

lemma snd_gameLoop:
  "snd (gameLoop timestamp g)
     = (if isGameActive g then snd (updateBallAnimation timestamp (g \<lparr> lastTimestamp := timestamp \<rparr>))
        else g \<lparr> lastTimestamp := timestamp \<rparr>)"
  by (simp add: gameLoop_def Let_def split: prod.splits outcome.splits)

lemma statsInvariant_fire:
  assumes "statsInvariant g"
  shows "statsInvariant (fire rnd e g)"
proof (cases e)
  case (SelectBucket n)
  then show ?thesis using assms by (simp add: handleBucketSelection_def statsInvariant_def)
next
  case (DropClick now)
  then show ?thesis using assms statsInvariant_handleDropBall by simp
next
  case ResetClick
  then show ?thesis using assms
    by (simp add: handleReset_def resetBall_def statsInvariant_def)
next
  case (Frame timestamp)
  have "statsInvariant (g \<lparr> lastTimestamp := timestamp \<rparr>)"
    using assms by (simp add: statsInvariant_def)
  then show ?thesis using Frame statsInvariant_updateBallAnimation
    by (simp add: snd_gameLoop)
next
  case (Resize w)
  then show ?thesis using assms
    by (simp add: resizeCanvas_keeps statsInvariant_def)
next
  case CleanupTimer
  then show ?thesis using assms by (simp add: cleanupTimeout_def statsInvariant_def)
qed

lemma statsInvariant_reachable: "reachable g \<Longrightarrow> statsInvariant g"
proof (induction rule: reachable.induct)
  case (reachable_init containerWidth)
  show ?case
    by (simp add: statsInvariant_def initGame_def resizeCanvas_keeps initialGame_def)
next
  case (reachable_fire g rnd e)
  then show ?case by (simp add: statsInvariant_fire)
qed


lemma successfulDrops_fire:
  "successfulDrops (fire rnd e g) = successfulDrops g
   \<or> (successfulDrops (fire rnd e g) = successfulDrops g + 1
       \<and> \<not> landingHandled g \<and> landingHandled (fire rnd e g))"
proof (cases e)
  case (DropClick now)
  let ?g1 = "g \<lparr> isGameActive := True, lastTimestamp := 0 \<rparr>"
  from handleDropBall_cases [of rnd now g] show ?thesis
  proof (elim disjE exE conjE)
    assume "snd (handleDropBall rnd now g) = g"
    then show ?thesis using DropClick by simp
  next
    assume "animationErased (snd (handleDropBall rnd now g)) = animationErased ?g1"
    from erased_fields(4) [OF this] show ?thesis using DropClick by simp
  next
    fix x p g'
    assume s: "snd (handleDropBall rnd now g) = startDrop now (the (selectedBucket g)) x p g'"
      and e: "animationErased g' = animationErased ?g1"
    from erased_fields(4) [OF e] show ?thesis using DropClick s by (simp add: startDrop_def)
  qed
next
  case (Frame timestamp)
  let ?g1 = "g \<lparr> lastTimestamp := timestamp \<rparr>"
  from updateBallAnimation_cases [of timestamp ?g1]
  have "successfulDrops (snd (updateBallAnimation timestamp ?g1)) = successfulDrops g
     \<or> (successfulDrops (snd (updateBallAnimation timestamp ?g1)) = successfulDrops g + 1
         \<and> \<not> landingHandled g \<and> landingHandled (snd (updateBallAnimation timestamp ?g1)))"
  proof (elim disjE exE conjE)
    fix b n ok
    assume "\<not> landingHandled ?g1"
      and u: "snd (updateBallAnimation timestamp ?g1)
                = (handleBallLanding n ok (?g1 \<lparr> ball := Some b \<rparr>))
                    \<lparr> isGameActive := False, gameState := Completed \<rparr>"
    then show ?thesis unfolding u
      by (cases ok) (simp_all add: handleBallLanding_def Let_def)
  qed simp_all
  then show ?thesis using Frame by (simp add: snd_gameLoop)
qed (simp_all add: handleBucketSelection_def handleReset_def resetBall_def resizeCanvas_keeps
       cleanupTimeout_def)

lemma handleDropBall_outcome:
  assumes sel: "selectedBucket g = Some sel" and idle: "\<not> isGameActive g"
  shows "(fst (handleDropBall rnd now g) = Returns ()
          \<and> (\<exists>x p g'. snd (handleDropBall rnd now g) = startDrop now sel x p g'
                \<and> animationErased g'
                    = animationErased (g \<lparr> isGameActive := True, lastTimestamp := 0 \<rparr>)))
       \<or> ((\<exists>e. fst (handleDropBall rnd now g) = Throws e)
          \<and> animationErased (snd (handleDropBall rnd now g))
              = animationErased (g \<lparr> isGameActive := True, lastTimestamp := 0 \<rparr>))"
proof -
  let ?g1 = "g \<lparr> isGameActive := True, lastTimestamp := 0 \<rparr>"
  obtain r g2 where sp: "searchPath rnd sel 100 ?g1 = (r, g2)"
    by (cases "searchPath rnd sel 100 ?g1")
  have e2: "animationErased g2 = animationErased ?g1"
    using erased_searchPath [of rnd sel 100 ?g1] sp by simp
  show ?thesis
  proof (cases r)
    case (Throws e)
    then have "handleDropBall rnd now g = (Throws e, g2)"
      using sel idle sp by (simp add: handleDropBall_def)
    then show ?thesis using e2 by simp
  next
    case (Returns found)
    show ?thesis
    proof (cases found)
      case (Some v)
      obtain x p where v: "v = (x, p)" by (cases v)
      have "handleDropBall rnd now g = (Returns (), startDrop now sel x p g2)"
        using sel idle sp Returns Some v by (simp add: handleDropBall_def)
      then show ?thesis using e2 by auto
    next
      case None
      show ?thesis
      proof (cases "lookupBucket (bucketLocations g2) sel")
        case None
        then have "handleDropBall rnd now g = (Throws TypeError, g2)"
          using sel idle sp Returns \<open>found = None\<close> by (simp add: handleDropBall_def)
        then show ?thesis using e2 by simp
      next
        case (Some tb)
        let ?x = "bucket_x tb + (rnd (randomPos g2) - 1 / 2) * 20"
        let ?p = "map (directPoint rnd tb g2 ?x) [0..<51]"
        let ?g3 = "g2 \<lparr> randomPos := randomPos g2 + 52 \<rparr>"
        have "handleDropBall rnd now g = (Returns (), startDrop now sel ?x ?p ?g3)"
          using sel idle sp Returns \<open>found = None\<close> Some
          by (simp add: handleDropBall_def directPath_def Let_def)
        moreover have "animationErased ?g3 = animationErased ?g1"
          using e2 by (simp add: animationErased_def)
        ultimately show ?thesis by auto
      qed
    qed
  qed
qed

lemma dropStarts_DropClick:
  "dropStarts rnd (DropClick now) g
     = (selectedBucket g \<noteq> None \<and> \<not> isGameActive g
        \<and> fst (handleDropBall rnd now g) = Returns ())"
  by (simp add: dropStarts_def)

lemma dropStarts_other:
  "\<not> dropStarts rnd (SelectBucket n) g" "\<not> dropStarts rnd ResetClick g"
  "\<not> dropStarts rnd (Frame t) g" "\<not> dropStarts rnd (Resize w) g"
  "\<not> dropStarts rnd CleanupTimer g"
  by (simp_all add: dropStarts_def)

lemma dropClick_cases:
  "(\<not> dropStarts rnd (DropClick now) g
      \<and> totalDrops (snd (handleDropBall rnd now g)) = totalDrops g
      \<and> landingHandled (snd (handleDropBall rnd now g)) = landingHandled g)
   \<or> (dropStarts rnd (DropClick now) g
      \<and> totalDrops (snd (handleDropBall rnd now g)) = totalDrops g + 1
      \<and> gameState (snd (handleDropBall rnd now g)) = Dropping
      \<and> \<not> landingHandled (snd (handleDropBall rnd now g))
      \<and> isGameActive (snd (handleDropBall rnd now g))
      \<and> ball (snd (handleDropBall rnd now g)) \<noteq> None
      \<and> animationPath (snd (handleDropBall rnd now g)) \<noteq> None)"
proof (cases "selectedBucket g")
  case None
  then show ?thesis by (simp add: dropStarts_DropClick handleDropBall_def)
next
  case (Some sel)
  show ?thesis
  proof (cases "isGameActive g")
    case True
    then show ?thesis using Some by (simp add: dropStarts_DropClick handleDropBall_def)
  next
    case False
    let ?g1 = "g \<lparr> isGameActive := True, lastTimestamp := 0 \<rparr>"
    from handleDropBall_outcome [OF Some False, of rnd now] show ?thesis
    proof (elim disjE exE conjE)
      fix x p g'
      assume r: "fst (handleDropBall rnd now g) = Returns ()"
        and s: "snd (handleDropBall rnd now g) = startDrop now sel x p g'"
        and e: "animationErased g' = animationErased ?g1"
      have "dropStarts rnd (DropClick now) g"
        using Some False r by (simp add: dropStarts_DropClick)
      moreover have "totalDrops g' = totalDrops g" using erased_fields(5) [OF e] by simp
      ultimately show ?thesis unfolding s by (simp add: startDrop_def)
    next
      fix e
      assume r: "fst (handleDropBall rnd now g) = Throws e"
        and er: "animationErased (snd (handleDropBall rnd now g)) = animationErased ?g1"
      have "\<not> dropStarts rnd (DropClick now) g" using r by (simp add: dropStarts_DropClick)
      then show ?thesis using erased_fields(5) [OF er] erased_fields(3) [OF er] by simp
    qed
  qed
qed

lemma frame_keeps:
  "totalDrops (snd (gameLoop t g)) = totalDrops g"
  "landingHandled g \<Longrightarrow> landingHandled (snd (gameLoop t g))"
proof -
  let ?g1 = "g \<lparr> lastTimestamp := t \<rparr>"
  have a: "totalDrops (snd (updateBallAnimation t ?g1)) = totalDrops ?g1"
    using updateBallAnimation_cases [of t ?g1]
    by (elim disjE exE conjE) (simp_all add: handleBallLanding_def Let_def)
  then show "totalDrops (snd (gameLoop t g)) = totalDrops g" by (simp add: snd_gameLoop)
  assume h: "landingHandled g"
  have "landingHandled (snd (updateBallAnimation t ?g1))"
    using updateBallAnimation_cases [of t ?g1] h
    by (elim disjE exE conjE) simp_all
  then show "landingHandled (snd (gameLoop t g))" using h by (simp add: snd_gameLoop)
qed

lemma totalDrops_exact:
  "totalDrops (fire rnd e g) = totalDrops g + (if dropStarts rnd e g then 1 else 0)"
proof (cases e)
  case (DropClick now)
  then show ?thesis using dropClick_cases [of rnd now g] by auto
next
  case (Frame t)
  then show ?thesis by (simp add: frame_keeps dropStarts_other)
qed (simp_all add: dropStarts_other handleBucketSelection_def handleReset_def resetBall_def
       resizeCanvas_keeps cleanupTimeout_def)

lemma dropStarts_state:
  assumes "dropStarts rnd e g"
  shows "gameState (fire rnd e g) = Dropping \<and> \<not> landingHandled (fire rnd e g)
    \<and> isGameActive (fire rnd e g) \<and> ball (fire rnd e g) \<noteq> None
    \<and> animationPath (fire rnd e g) \<noteq> None"
proof (cases e)
  case (DropClick now)
  then show ?thesis using assms dropClick_cases [of rnd now g] by auto
qed (use assms in \<open>simp_all add: dropStarts_other\<close>)

lemma flag_cleared:
  assumes h: "landingHandled g" and c: "\<not> landingHandled (fire rnd e g)"
  shows "dropStarts rnd e g
    \<or> (ball (fire rnd e g) = None \<and> animationPath (fire rnd e g) = None)"
proof (cases e)
  case (SelectBucket n)
  then show ?thesis using h c by (auto simp: handleBucketSelection_def split: if_splits)
next
  case (DropClick now)
  then show ?thesis using h c dropClick_cases [of rnd now g] by auto
next
  case ResetClick
  then show ?thesis using h c by (auto simp: handleReset_def resetBall_def split: if_splits)
next
  case (Frame t)
  then show ?thesis using h c frame_keeps(2) [of g t] by simp
next
  case (Resize w)
  then show ?thesis using h c by (simp add: resizeCanvas_keeps)
next
  case CleanupTimer
  then show ?thesis using h c by (auto simp: cleanupTimeout_def split: if_splits)
qed

subsection \<open>A drop on the canvas of size zero\<close>

lemma fold_deflect_clear:
  "clearOf br pegs (currentX s) (currentY s) \<Longrightarrow> fold (deflectPeg rnd br t) pegs s = s"
  by (induction pegs) (auto simp: clearOf_def deflectPeg_def Let_def)

lemma abs_le_pegDist:
  "\<bar>x - peg_x p\<bar> \<le> pegDist x y p" "\<bar>y - peg_y p\<bar> \<le> pegDist x y p"
  by (auto simp: pegDist_def Let_def power2_eq_square intro!: real_le_rsqrt)

lemma board0_fields:
  "canvas_width board0 = 0" "canvas_height board0 = 0" "ballRadius board0 = 0"
  "pegRadius board0 = 0" "totalDrops board0 = 0" "successfulDrops board0 = 0"
  "selectedBucket board0 = None" "\<not> isGameActive board0" "randomPos board0 = 0"
  "animationDuration board0 = 0" "\<not> landingHandled board0" "ball board0 = None"
  "animationPath board0 = None" "targetBucket board0 = None"
  by (simp_all add: board0_def initGame_def resizeCanvas_canvas resizeCanvas_radii
        resizeCanvas_keeps initialGame_def)
     (simp_all add: snd_resizeCanvas initBuckets_def initPegs_def Let_def initialGame_def)

lemma board0_buckets:
  "bucketLocations board0 =
     [\<lparr> bucket_x = 0, bucket_y = 0, bucket_width = 0, bucket_height = 0, bucket_number = 1 \<rparr>,
      \<lparr> bucket_x = 0, bucket_y = 0, bucket_width = 0, bucket_height = 0, bucket_number = 2 \<rparr>,
      \<lparr> bucket_x = 0, bucket_y = 0, bucket_width = 0, bucket_height = 0, bucket_number = 3 \<rparr>,
      \<lparr> bucket_x = 0, bucket_y = 0, bucket_width = 0, bucket_height = 0, bucket_number = 4 \<rparr>,
      \<lparr> bucket_x = 0, bucket_y = 0, bucket_width = 0, bucket_height = 0, bucket_number = 5 \<rparr>]"
proof -
  have "bucketLocations board0 = bucketLocations (initBuckets board0)"
    by (simp add: board0_def initGame_def snd_resizeCanvas initBuckets_def Let_def)
  then show ?thesis
    unfolding initBuckets_list board0_fields by simp
qed

lemma board0_pegs_where:
  "p \<in> set (pegLocations board0) \<Longrightarrow> peg_x p = 0 \<and> peg_y p = 0 \<and> peg_radius p = 0"
proof -
  let ?g2 = "initialGame \<lparr> canvas_width := canvasAttribute 300 (min (real 20 - 20) 800),
      canvas_height := canvasAttribute 150 (min (real 20 - 20) 800 * (13 / 10)),
      pegSpacing := js_floor (min (real 20 - 20) 800 / 16),
      pegRadius := js_floor (min (real 20 - 20) 800 / 100),
      ballRadius := js_floor (min (real 20 - 20) 800 / 60) \<rparr>"
  have p: "pegLocations board0 = pegLocations (initPegs ?g2)"
    by (simp add: board0_def initGame_def snd_resizeCanvas initBuckets_def Let_def)
  have c: "canvas_width ?g2 = 0" "canvas_height ?g2 = 0" "pegRadius ?g2 = 0"
    by (simp_all add: canvasAttribute_nonneg js_floor_def)
  assume "p \<in> set (pegLocations board0)"
  then show ?thesis unfolding p
    by (auto simp: initPegs_def rowPegs_def Let_def canvasAttribute_nonneg js_floor_def)
qed

lemma applyForces_eq:
  "applyForces tb timeStep time s = s \<lparr> currentVy := currentVy s + gravity * (timeStep / 16) \<rparr>"
  by (cases "lastHitTime s") (simp_all add: applyForces_def Let_def)

lemma board0_deflect:
  assumes x: "currentX s = 0" and y: "currentY s = 0"
  shows "fold (deflectPeg evenDraws 0 t) (pegLocations board0) s
     = s \<lparr> currentX := 11 / 5, currentY := 0, lastHitTime := Some t,
           currentVx := currentVx s + 33 / 25, currentVy := max (8 / 10) (currentVy s),
           sim_randomPos := sim_randomPos s + 5 \<rparr>"
proof -
  have "length (pegLocations board0) = 55"
    by (simp add: board0_def initGame_def resizeCanvas_pegs)
  then obtain p0 rest where ps: "pegLocations board0 = p0 # rest"
    by (cases "pegLocations board0") auto
  have p0: "peg_x p0 = 0" "peg_y p0 = 0" "peg_radius p0 = 0"
    using board0_pegs_where [of p0] ps by simp_all
  let ?s1 = "s \<lparr> currentX := 11 / 5, currentY := 0, lastHitTime := Some t,
           currentVx := currentVx s + 33 / 25, currentVy := max (8 / 10) (currentVy s),
           sim_randomPos := sim_randomPos s + 5 \<rparr>"
  have hit: "deflectPeg evenDraws 0 t p0 s = ?s1"
    by (simp add: deflectPeg_def pegDist_def minDist_def atan2_def evenDraws_def Let_def p0 x y)
  have clear: "clearOf 0 rest (currentX ?s1) (currentY ?s1)"
    unfolding clearOf_def
  proof
    fix p
    assume "p \<in> set rest"
    then have "p \<in> set (pegLocations board0)" using ps by simp
    from board0_pegs_where [OF this]
    have r: "peg_x p = 0" "peg_radius p = 0" by simp_all
    have "minDist 0 p = 2" using r by (simp add: minDist_def)
    moreover have "11 / 5 \<le> pegDist (11 / 5) 0 p"
      using abs_le_pegDist(1) [of "11 / 5" p 0] r by simp
    ultimately show "minDist 0 p \<le> pegDist (currentX ?s1) (currentY ?s1) p" by simp
  qed
  show ?thesis
    unfolding ps fold_simps hit by (rule fold_deflect_clear [OF clear])
qed

lemma board0_start:
  "startAttempt evenDraws 0 0 1 bucket0 0 s
     = s \<lparr> path := [\<lparr> kf_x = 0, kf_y = 0, kf_time = 0 \<rparr>], currentX := 0, currentY := 0,
           currentVx := - (3 / 4), currentVy := 7 / 5, hitCount := 0, hitWall := False,
           lastHitTime := None, sim_randomPos := sim_randomPos s + 6 \<rparr>"
  by (simp add: startAttempt_def edgeFactorOf_def bucketCount_def evenDraws_def bucket0_def
        Let_def)

lemma board0_step:
  assumes g: "pegLocations g = pegLocations board0" "ballRadius g = 0" "canvas_width g = 0"
    and s: "currentX s = 0" "currentY s = 0" "currentVx s = - (3 / 4)" "currentVy s = 7 / 5"
      "path s = [\<lparr> kf_x = 0, kf_y = 0, kf_time = 0 \<rparr>]"
  shows "simStep evenDraws g 0 bucket0 3000 1 s
     = (s \<lparr> currentX := 0, currentY := 7029 / 3200, lastHitTime := Some 20,
             currentVx := - (33687 / 100000), currentVy := 7029 / 4000,
             sim_randomPos := sim_randomPos s + 5,
             isValidPath := isValidPath s,
             path := [\<lparr> kf_x = 0, kf_y = 0, kf_time = 0 \<rparr>,
                      \<lparr> kf_x = 0, kf_y = 0, kf_time = 0 \<rparr>],
             sim_animationDuration := 0 \<rparr>, True)"
proof -
  let ?s2 = "s \<lparr> currentVy := 71 / 40 \<rparr>"
  have a: "applyForces bucket0 20 20 s = ?s2"
    by (simp add: applyForces_eq gravity_def s)
  have f: "fold (deflectPeg evenDraws 0 20) (pegLocations board0) ?s2
     = ?s2 \<lparr> currentX := 11 / 5, currentY := 0, lastHitTime := Some 20,
           currentVx := currentVx ?s2 + 33 / 25, currentVy := max (8 / 10) (currentVy ?s2),
           sim_randomPos := sim_randomPos ?s2 + 5 \<rparr>"
    by (rule board0_deflect) (simp_all add: s)
  have p: "physicsStep evenDraws g 0 bucket0 20 20 s
     = s \<lparr> currentX := 0, currentY := 7029 / 3200, lastHitTime := Some 20,
           currentVx := - (33687 / 100000), currentVy := 7029 / 4000,
           sim_randomPos := sim_randomPos s + 5 \<rparr>"
    unfolding physicsStep_def g a f
    by (simp add: dampAndMove_def walls_def Let_def s g)
  have t: "3000 / real steps = 20" "real 1 * 20 = 20" by (simp_all add: steps_def)
  show ?thesis
    unfolding simStep_def Let_def t p
    by (simp add: landing_def Let_def bucket0_def bucketLeft_def bucketRight_def s)
qed

lemma board0_attempt:
  assumes g: "pegLocations g = pegLocations board0" "ballRadius g = 0" "canvas_width g = 0"
  shows "attempt evenDraws g 0 0 1 bucket0 3000 0 s
     = s \<lparr> path := [\<lparr> kf_x = 0, kf_y = 0, kf_time = 0 \<rparr>,
                    \<lparr> kf_x = 0, kf_y = 0, kf_time = 0 \<rparr>],
           currentX := 0, currentY := 7029 / 3200,
           currentVx := - (33687 / 100000), currentVy := 7029 / 4000,
           hitCount := 0, hitWall := False, lastHitTime := Some 20,
           sim_randomPos := sim_randomPos s + 11,
           sim_animationDuration := 0, isValidPath := True \<rparr>"
proof -
  let ?s0 = "startAttempt evenDraws 0 0 1 bucket0 0 s"
  have n: "steps = Suc 149" by (simp add: steps_def)
  have one: "(1::nat) = Suc 0" by simp
  have st: "simStep evenDraws g 0 bucket0 3000 1 ?s0
     = (?s0 \<lparr> currentX := 0, currentY := 7029 / 3200, lastHitTime := Some 20,
             currentVx := - (33687 / 100000), currentVy := 7029 / 4000,
             sim_randomPos := sim_randomPos ?s0 + 5,
             isValidPath := isValidPath ?s0,
             path := [\<lparr> kf_x = 0, kf_y = 0, kf_time = 0 \<rparr>,
                      \<lparr> kf_x = 0, kf_y = 0, kf_time = 0 \<rparr>],
             sim_animationDuration := 0 \<rparr>, True)"
    by (rule board0_step [OF g]) (simp_all add: board0_start)
  have loop: "simLoop evenDraws g 0 bucket0 3000 steps 1 ?s0 = fst (simStep evenDraws g 0 bucket0 3000 1 ?s0)"
    unfolding n simLoop.simps st by simp
  show ?thesis
    unfolding attempt_def Let_def loop st fst_conv
    by (simp add: validatePath_def Let_def board0_start bucketCount_def)
qed

lemma board0_generate:
  assumes g: "pegLocations g = pegLocations board0" "ballRadius g = 0" "canvas_width g = 0"
    and b: "bucketLocations g = bucketLocations board0"
  shows "generateAnimationPath evenDraws 0 0 1 g
     = (Returns [\<lparr> kf_x = 0, kf_y = 0, kf_time = 0 \<rparr>, \<lparr> kf_x = 0, kf_y = 0, kf_time = 0 \<rparr>],
        g \<lparr> animationDuration := 0, randomPos := randomPos g + 12 \<rparr>)"
proof -
  have l: "lookupBucket (bucketLocations g) 1 = Some bucket0"
    by (simp add: b board0_buckets lookupBucket_def bucket0_def)
  have t: "2500 + evenDraws (randomPos g) * 1000 = 3000" by (simp add: evenDraws_def)
  show ?thesis
    unfolding generateAnimationPath_def l option.case Let_def t
    by (subst retryLoop.simps) (simp add: board0_attempt [OF g] Let_def)
qed

lemma selected0_eq: "selected0 = board0 \<lparr> selectedBucket := Some 1 \<rparr>"
  by (simp add: selected0_def handleBucketSelection_def board0_fields)

lemma board0_search:
  "searchPath evenDraws 1 100 (selected0 \<lparr> isGameActive := True, lastTimestamp := 0 \<rparr>)
     = (Returns (Some (0, [\<lparr> kf_x = 0, kf_y = 0, kf_time = 0 \<rparr>,
                          \<lparr> kf_x = 0, kf_y = 0, kf_time = 0 \<rparr>])),
        selected0 \<lparr> isGameActive := True, lastTimestamp := 0, animationDuration := 0,
                    randomPos := 14 \<rparr>)"
proof -
  let ?g1 = "selected0 \<lparr> isGameActive := True, lastTimestamp := 0 \<rparr>"
  let ?g2 = "?g1 \<lparr> randomPos := 2 \<rparr>"
  have c: "calculateInitialBallPosition evenDraws ?g1 = (0, ?g2)"
    by (simp add: calculateInitialBallPosition_def Let_def evenDraws_def selected0_eq
          board0_fields)
  have gen: "generateAnimationPath evenDraws 0 0 1 ?g2
     = (Returns [\<lparr> kf_x = 0, kf_y = 0, kf_time = 0 \<rparr>, \<lparr> kf_x = 0, kf_y = 0, kf_time = 0 \<rparr>],
        ?g2 \<lparr> animationDuration := 0, randomPos := randomPos ?g2 + 12 \<rparr>)"
    by (rule board0_generate) (simp_all add: selected0_eq board0_fields)
  have h: "canvas_height ?g2 * (5 / 100) = 0" by (simp add: selected0_eq board0_fields)
  have n: "(100::nat) = Suc 99" by simp
  have b: "bucketLocations (?g2 \<lparr> animationDuration := 0, randomPos := randomPos ?g2 + 12 \<rparr>)
             = bucketLocations board0"
    by (simp add: selected0_eq)
  have land: "landedBucketOf 0 (bucketLocations board0) 0 = Some 1"
    by (simp add: board0_buckets bucketLeft_def bucketRight_def)
  show ?thesis
    unfolding n searchPath.simps c prod.case Let_def h gen outcome.case b
    by (simp add: land)
qed

lemma dropped0_eq:
  "handleDropBall evenDraws 0 selected0
     = (Returns (),
        startDrop 0 1 0 [\<lparr> kf_x = 0, kf_y = 0, kf_time = 0 \<rparr>, \<lparr> kf_x = 0, kf_y = 0, kf_time = 0 \<rparr>]
          (selected0 \<lparr> isGameActive := True, lastTimestamp := 0, animationDuration := 0,
                       randomPos := 14 \<rparr>))"
proof -
  have s: "selectedBucket selected0 = Some 1" "\<not> isGameActive selected0"
    by (simp_all add: selected0_eq board0_fields)
  show ?thesis
    using s by (simp add: handleDropBall_def board0_search)
qed

lemma dropped0_fields:
  "totalDrops dropped0 = 1" "successfulDrops dropped0 = 0"
  "ball dropped0 = Some \<lparr> ball_x = 0, ball_y = 0, ball_radius = 0, ball_targetBucket = 1 \<rparr>"
  "animationPath dropped0 = Some [\<lparr> kf_x = 0, kf_y = 0, kf_time = 0 \<rparr>,
                                  \<lparr> kf_x = 0, kf_y = 0, kf_time = 0 \<rparr>]"
  "isGameActive dropped0" "animationStartTime dropped0 = 0" "animationDuration dropped0 = 0"
  "\<not> landingHandled dropped0" "targetBucket dropped0 = Some 1"
  "bucketLocations dropped0 = bucketLocations board0" "gameState dropped0 = Dropping"
  unfolding dropped0_def fire.simps dropped0_eq snd_conv
  by (simp_all add: startDrop_def selected0_eq board0_fields board0_buckets)

lemma landed0_fields:
  "totalDrops landed0 = 1" "successfulDrops landed0 = 1" "landingHandled landed0"
  "lastBucketLanded landed0 = Some 1" "lastResult landed0 = Some Success"
  "gameState landed0 = Completed" "\<not> isGameActive landed0"
proof -
  let ?g = "dropped0 \<lparr> lastTimestamp := 16 \<rparr>"
  let ?b = "\<lparr> ball_x = 0, ball_y = 0, ball_radius = 0, ball_targetBucket = 1 \<rparr>"
  let ?k = "\<lparr> kf_x = 0, kf_y = 0, kf_time = 0 \<rparr>"
  let ?g1 = "?g \<lparr> ball := Some ?b \<rparr>"
  have first: "firstPass 0 (bucketLocations board0) 0 None None = Some 1"
    by (simp add: board0_buckets bucketLeft_def bucketRight_def)
  have c: "classifyLanding ?g1 ?k = Returns (Some 1)"
    by (simp add: classifyLanding_def Let_def dropped0_fields first)
  have u: "updateBallAnimation 16 ?g = finishAnimation (handleBallLanding (Some 1) True ?g1)"
    by (simp add: updateBallAnimation_def completeAnimation_def Let_def dropped0_fields c)
  have l: "landed0 = snd (finishAnimation (handleBallLanding (Some 1) True ?g1))"
    by (simp add: landed0_def snd_gameLoop dropped0_fields u)
  show "totalDrops landed0 = 1" "successfulDrops landed0 = 1" "landingHandled landed0"
    "lastBucketLanded landed0 = Some 1" "lastResult landed0 = Some Success"
    "gameState landed0 = Completed" "\<not> isGameActive landed0"
    unfolding l
    by (simp_all add: finishAnimation_def handleBallLanding_def Let_def dropped0_fields)
qed

subsection \<open>The bound on the statistics\<close>

text \<open>
  Claim C10. In every state reachable from the initial layout through the events of the
  page (selecting a bucket, the drop button, the reset button, an animation frame, a
  resize, the cleanup timer), successfulDrops is at most totalDrops; both are natural
  numbers. An event that starts a drop adds exactly one to totalDrops and leaves a ball
  with a path, the state \<open>Dropping\<close> and landingHandled cleared; every other event leaves
  totalDrops as it was. One event leaves successfulDrops unchanged or adds exactly one to
  it, and then landingHandled was clear before and is set after; once set, landingHandled
  is cleared only by an event that starts a drop, or by a reset, which removes the ball
  and its path.
\<close>

theorem stats_bounded:
  assumes "reachable g"
  shows "successfulDrops g \<le> totalDrops g
    \<and> totalDrops (fire rnd e g) = totalDrops g + (if dropStarts rnd e g then 1 else 0)
    \<and> (dropStarts rnd e g \<longrightarrow>
          gameState (fire rnd e g) = Dropping \<and> \<not> landingHandled (fire rnd e g)
          \<and> isGameActive (fire rnd e g) \<and> ball (fire rnd e g) \<noteq> None
          \<and> animationPath (fire rnd e g) \<noteq> None)
    \<and> (successfulDrops (fire rnd e g) = successfulDrops g
        \<or> (successfulDrops (fire rnd e g) = successfulDrops g + 1
            \<and> \<not> landingHandled g \<and> landingHandled (fire rnd e g)))
    \<and> (landingHandled g \<and> \<not> landingHandled (fire rnd e g) \<longrightarrow>
          dropStarts rnd e g
          \<or> (ball (fire rnd e g) = None \<and> animationPath (fire rnd e g) = None))"
proof -
  have a: "successfulDrops g \<le> totalDrops g"
    using statsInvariant_reachable [OF assms] by (simp add: statsInvariant_def)
  show ?thesis
    using a totalDrops_exact [of rnd e g] dropStarts_state [of rnd e g]
      successfulDrops_fire [of rnd e g] flag_cleared [of g rnd e]
    by blast
qed

theorem stats_bounded_witness:
  "dropStarts evenDraws (DropClick 0) selected0
   \<and> totalDrops selected0 = 0
   \<and> totalDrops dropped0 = 1
   \<and> successfulDrops dropped0 = 0
   \<and> totalDrops landed0 = 1
   \<and> successfulDrops landed0 = 1
   \<and> successfulDrops landed0 \<le> totalDrops landed0
   \<and> successfulDrops (fire evenDraws (Frame 32) landed0) = 1"
proof -
  have r1: "reachable selected0"
    unfolding selected0_def board0_def by (intro reachable_fire reachable_init)
  have r3: "reachable landed0"
    unfolding landed0_def dropped0_def selected0_def board0_def
    by (intro reachable_fire reachable_init)
  have s: "selectedBucket selected0 \<noteq> None" "\<not> isGameActive selected0"
    by (simp_all add: selected0_eq board0_fields)
  have d: "dropStarts evenDraws (DropClick 0) selected0"
    unfolding dropStarts_DropClick dropped0_eq fst_conv using s by simp
  have t0: "totalDrops selected0 = 0" by (simp add: selected0_eq board0_fields)
  from stats_bounded [OF r1, of evenDraws "DropClick 0"] d t0
  have t1: "totalDrops dropped0 = 1" unfolding dropped0_def by simp
  from stats_bounded [OF r3, of evenDraws "Frame 32"]
  have le: "successfulDrops landed0 \<le> totalDrops landed0" by blast
  have again: "successfulDrops (fire evenDraws (Frame 32) landed0) = 1"
    by (simp add: snd_gameLoop landed0_fields)
  show ?thesis using d t0 t1 le again by (simp add: dropped0_fields landed0_fields)
qed

subsection \<open>A drop request for an index without a bucket\<close>

lemma landedBucketOf_range:
  "landedBucketOf x bs i = Some n \<Longrightarrow> int i + 1 \<le> n \<and> n \<le> int i + int (length bs)"
  by (induction x bs i rule: landedBucketOf.induct) (auto split: if_splits)

lemma landedBucketOf_no_bucket:
  assumes "lookupBucket bs t = None"
  shows "landedBucketOf x bs 0 \<noteq> Some t"
proof
  assume "landedBucketOf x bs 0 = Some t"
  from landedBucketOf_range [OF this] have "1 \<le> t \<and> t \<le> int (length bs)" by simp
  with assms show False by (simp add: lookupBucket_def)
qed

lemma erased_state:
  assumes "animationErased g' = animationErased g"
    and "animationDuration g' = animationDuration g"
  shows "g' = g \<lparr> randomPos := randomPos g' \<rparr>"
  using assms by (cases g, cases g') (simp add: animationErased_def)

lemma searchPath_no_bucket:
  assumes "lookupBucket (bucketLocations g) t = None"
  shows "fst (searchPath rnd t n g) = Returns None
    \<and> animationErased (snd (searchPath rnd t n g)) = animationErased g
    \<and> animationDuration (snd (searchPath rnd t n g)) = animationDuration g"
  using assms
proof (induction n arbitrary: g)
  case 0
  show ?case by simp
next
  case (Suc n)
  obtain x g1 where c: "calculateInitialBallPosition rnd g = (x, g1)"
    by (cases "calculateInitialBallPosition rnd g")
  have e1: "animationErased g1 = animationErased g"
    using erased_calculateInitialBallPosition [of rnd g] c by simp
  have d1: "animationDuration g1 = animationDuration g"
    using c by (auto simp: calculateInitialBallPosition_def Let_def split: if_splits)
  have b1: "lookupBucket (bucketLocations g1) t = None"
    using Suc.prems erased_fields(7) [OF e1] by simp
  let ?p = "[\<lparr> kf_x = x, kf_y = canvas_height g1 * (5 / 100), kf_time = 0 \<rparr>,
             \<lparr> kf_x = x, kf_y = canvas_height g1 + 50, kf_time = 1000 \<rparr>]"
  have gen: "generateAnimationPath rnd x (canvas_height g1 * (5 / 100)) t g1 = (Returns ?p, g1)"
    using b1 by (simp add: generateAnimationPath_def)
  have miss: "landedBucketOf x (bucketLocations g1) 0 \<noteq> Some t"
    using b1 by (rule landedBucketOf_no_bucket)
  have "searchPath rnd t (Suc n) g = searchPath rnd t n g1"
    using c gen miss by (simp add: Let_def)
  then show ?case using Suc.IH [OF b1] e1 d1 by simp
qed

text \<open>
  handleDropBall has no check of the selected index. For an index without a bucket every
  one of its 100 attempts gets the two-point path of generateAnimationPath, which lands
  in no bucket; then \<^verbatim>\<open>bucketLocations[selectedBucket - 1]\<close> is undefined and reading
  \<^verbatim>\<open>targetBucket.x\<close> throws. At the throw \<^verbatim>\<open>isGameActive\<close> is true and \<^verbatim>\<open>lastTimestamp\<close> is 0;
  apart from the draws of \<^verbatim>\<open>Math.random()\<close> nothing else has changed.
\<close>

lemma handleDropBall_no_bucket:
  assumes sel: "selectedBucket g = Some t"
    and none: "lookupBucket (bucketLocations g) t = None"
    and idle: "\<not> isGameActive g"
  shows "fst (handleDropBall rnd now g) = Throws TypeError
    \<and> snd (handleDropBall rnd now g)
        = g \<lparr> isGameActive := True, lastTimestamp := 0,
              randomPos := randomPos (snd (handleDropBall rnd now g)) \<rparr>"
proof -
  let ?g1 = "g \<lparr> isGameActive := True, lastTimestamp := 0 \<rparr>"
  obtain r g2 where sp: "searchPath rnd t 100 ?g1 = (r, g2)"
    by (cases "searchPath rnd t 100 ?g1")
  have n1: "lookupBucket (bucketLocations ?g1) t = None" using none by simp
  from searchPath_no_bucket [OF n1, of rnd 100] sp
  have r: "r = Returns None" and e: "animationErased g2 = animationErased ?g1"
    and d: "animationDuration g2 = animationDuration ?g1" by simp_all
  have n2: "lookupBucket (bucketLocations g2) t = None"
    using n1 erased_fields(7) [OF e] by simp
  have h: "handleDropBall rnd now g = (Throws TypeError, g2)"
    using sel idle sp r n2 by (simp add: handleDropBall_def)
  have "g2 = ?g1 \<lparr> randomPos := randomPos g2 \<rparr>" using e d by (rule erased_state)
  then show ?thesis unfolding h by simp
qed

lemma createBall_no_bucket:
  assumes sel: "selectedBucket g = Some t"
    and none: "lookupBucket (bucketLocations g) t = None"
    and three: "lookupBucket (bucketLocations g) 3 = Some tb"
  shows "targetBucket (snd (createBall rnd now g)) = Some 3
    \<and> totalDrops (snd (createBall rnd now g)) = totalDrops g + 1
    \<and> gameState (snd (createBall rnd now g)) = Dropping
    \<and> \<not> landingHandled (snd (createBall rnd now g))
    \<and> lastBucketLanded (snd (createBall rnd now g)) = None
    \<and> successfulDrops (snd (createBall rnd now g)) = successfulDrops g"
proof -
  let ?g1 = "g \<lparr> landingHandled := False, lastBucketLanded := None, gameState := Dropping,
                 totalDrops := totalDrops g + 1, targetBucket := selectedBucket g \<rparr>"
  obtain x g2 where c: "calculateInitialBallPosition rnd ?g1 = (x, g2)"
    by (cases "calculateInitialBallPosition rnd ?g1")
  have e2: "animationErased g2 = animationErased ?g1"
    using erased_calculateInitialBallPosition [of rnd ?g1] c by simp
  note f2 = erased_fields [OF e2]
  have l2: "lookupTarget g2 = None"
    using sel none f2(7) f2(8) by (simp add: lookupTarget_def)
  let ?g3 = "g2 \<lparr> targetBucket := Some 3 \<rparr>"
  have three3: "lookupTarget ?g3 = Some tb"
    using three f2(7) by (simp add: lookupTarget_def)
  let ?g4 = "?g3 \<lparr> ball := Some \<lparr> ball_x = x, ball_y = canvas_height ?g3 * (5 / 100),
                                  ball_radius = ballRadius ?g3, ball_targetBucket = 3 \<rparr>,
                    randomPos := randomPos ?g3 + 1 \<rparr>"
  obtain r g5 where gen: "generateAnimationPath rnd x (canvas_height ?g4 * (5 / 100)) 3 ?g4 = (r, g5)"
    by (cases "generateAnimationPath rnd x (canvas_height ?g4 * (5 / 100)) 3 ?g4")
  have e5: "animationErased g5 = animationErased ?g4"
    using erased_generateAnimationPath [of rnd x "canvas_height ?g4 * (5 / 100)" 3 ?g4] gen
    by simp
  note f5 = erased_fields [OF e5]
  have ceil: "\<lceil>real bucketCount / 2\<rceil> = 3" by (simp add: bucketCount_def)
  have cb: "snd (createBall rnd now g)
      = (case r of Throws e \<Rightarrow> g5
         | Returns p \<Rightarrow> g5 \<lparr> animationPath := Some p, animationStartTime := now \<rparr>)"
    using c l2 three3 gen by (simp add: createBall_def Let_def ceil split: outcome.splits)
  show ?thesis unfolding cb using f5 f2 by (cases r) simp_all
qed


lemma lookupBucket_outside:
  "length bs = 5 \<Longrightarrow> t < 1 \<or> 5 < t \<Longrightarrow> lookupBucket bs t = None"
  by (auto simp: lookupBucket_def)

lemma lookupBucket_three: "length bs = 5 \<Longrightarrow> lookupBucket bs 3 = Some (bs ! 2)"
  by (simp add: lookupBucket_def)

text \<open>
  Claim C5, as stated, fails for createBall: with bucket 7 selected on the 800 pixel
  board it does not reject the request. It replaces the target by bucket 3, counts a
  drop and enters the state \<open>Dropping\<close>, whatever generateAnimationPath then does.
\<close>

theorem createBall_substitutes_bucket:
  "targetBucket (snd (createBall (\<lambda>k. 1 / 2) 0 (board800 \<lparr> selectedBucket := Some 7 \<rparr>))) = Some 3
   \<and> totalDrops (snd (createBall (\<lambda>k. 1 / 2) 0 (board800 \<lparr> selectedBucket := Some 7 \<rparr>))) = 1
   \<and> gameState (snd (createBall (\<lambda>k. 1 / 2) 0 (board800 \<lparr> selectedBucket := Some 7 \<rparr>))) = Dropping
   \<and> totalDrops (board800 \<lparr> selectedBucket := Some 7 \<rparr>) = 0
   \<and> gameState (board800 \<lparr> selectedBucket := Some 7 \<rparr>) = Ready"
proof -
  let ?g = "board800 \<lparr> selectedBucket := Some 7 \<rparr>"
  have len: "length (bucketLocations ?g) = 5" by (simp add: board800_buckets)
  have sel: "selectedBucket ?g = Some 7" by simp
  have none: "lookupBucket (bucketLocations ?g) 7 = None"
    using len by (rule lookupBucket_outside) simp
  from createBall_no_bucket [OF sel none lookupBucket_three [OF len]]
  show ?thesis by (simp add: board800_stats)
qed

text \<open>
  Claim C5, amended. On a board of five buckets, with a selected index outside 1..5,
  createBall does not reject the request: it substitutes the middle bucket 3 as the
  target, adds one to totalDrops, clears landingHandled and lastBucketLanded and sets the
  game state to \<open>Dropping\<close>; successfulDrops stays as it was.
\<close>

theorem invalid_target_drop:
  assumes sel: "selectedBucket g = Some t"
    and len: "length (bucketLocations g) = 5"
    and out: "t < 1 \<or> 5 < t"
  shows "targetBucket (snd (createBall rnd now g)) = Some 3
    \<and> totalDrops (snd (createBall rnd now g)) = totalDrops g + 1
    \<and> gameState (snd (createBall rnd now g)) = Dropping
    \<and> \<not> landingHandled (snd (createBall rnd now g))
    \<and> lastBucketLanded (snd (createBall rnd now g)) = None
    \<and> successfulDrops (snd (createBall rnd now g)) = successfulDrops g"
proof -
  have none: "lookupBucket (bucketLocations g) t = None"
    using len out by (rule lookupBucket_outside)
  from createBall_no_bucket [OF sel none lookupBucket_three [OF len], of rnd now]
  show ?thesis .
qed

theorem invalid_target_drop_witness:
  "targetBucket (snd (createBall (\<lambda>k. 1 / 2) 0 (board800 \<lparr> selectedBucket := Some 0 \<rparr>))) = Some 3
   \<and> totalDrops (snd (createBall (\<lambda>k. 1 / 2) 0 (board800 \<lparr> selectedBucket := Some 0 \<rparr>))) = 1
   \<and> gameState (snd (createBall (\<lambda>k. 1 / 2) 0 (board800 \<lparr> selectedBucket := Some 0 \<rparr>)))
        = Dropping
   \<and> successfulDrops (snd (createBall (\<lambda>k. 1 / 2) 0 (board800 \<lparr> selectedBucket := Some 0 \<rparr>)))
        = 0"
proof -
  let ?g = "board800 \<lparr> selectedBucket := Some 0 \<rparr>"
  have sel: "selectedBucket ?g = Some 0" by simp
  have len: "length (bucketLocations ?g) = 5" by (simp add: board800_buckets)
  have out: "(0::int) < 1 \<or> (5::int) < 0" by simp
  from invalid_target_drop [OF sel len out, of "\<lambda>k. 1 / 2" 0]
  show ?thesis by (simp add: board800_stats)
qed

end
